theory Spec2Isabelle
  imports Complex_Main "HOL-Library.Multiset" "HOL-Library.Log_Nat"
begin

section \<open>Score parser (src/lib/score-parser.ts)\<close>

subsection \<open>Data\<close>

text \<open>
  The \<open>confidence\<close> field of \<open>ParsedScore\<close> is the union type
  \<open>'high' | 'medium' | 'low'\<close>.
\<close>

datatype confidence = High | Medium | Low

text \<open>
  \<open>ParsedScore\<close>: every optional field of the interface is an \<open>option\<close>
  (\<open>None\<close> is the field being \<open>undefined\<close>).  JavaScript numbers are modelled
  as mathematical integers, which is exact for every integer below \<open>2^53\<close>.
\<close>

record ParsedScore =
  player1Name :: "string option"
  player2Name :: "string option"
  player1Score :: "int option"
  player2Score :: "int option"
  winnerName :: "string option"
  confidence :: confidence
  error :: "string option"

text \<open>The object \<open>{ valid: boolean; error?: string }\<close> returned by \<open>validateScore\<close>.\<close>

record validity =
  valid :: bool
  reason :: "string option"

subsection \<open>Rendering a number inside a template literal\<close>

definition digit_char :: "nat \<Rightarrow> char" where
  "digit_char d = ''0123456789'' ! d"

function show_nat :: "nat \<Rightarrow> string" where
  "show_nat n = (if n < 10 then [digit_char n] else show_nat (n div 10) @ [digit_char (n mod 10)])"
  by pat_completeness auto
termination
  by (relation "measure (\<lambda>n. n)") auto

declare show_nat.simps [simp del]

definition show_int :: "int \<Rightarrow> string" where
  "show_int i = (if i < 0 then CHR ''-'' # show_nat (nat (- i)) else show_nat (nat i))"

subsection \<open>validateScore\<close>

definition validateScore :: "ParsedScore \<Rightarrow> int \<Rightarrow> validity" where
  "validateScore parsed matchLength =
     (case (player1Score parsed, player2Score parsed) of
        (Some p1, Some p2) \<Rightarrow>
          if p1 \<noteq> matchLength \<and> p2 \<noteq> matchLength then
            \<lparr>valid = False,
             reason = Some (''One player must reach '' @ show_int matchLength @ '' points'')\<rparr>
          else if p1 = p2 then
            \<lparr>valid = False, reason = Some ''Scores cannot be tied''\<rparr>
          else if p1 < 0 \<or> p2 < 0 then
            \<lparr>valid = False, reason = Some ''Scores must be positive''\<rparr>
          else if min p1 p2 \<ge> matchLength then
            \<lparr>valid = False, reason = Some ''Losing score must be less than match length''\<rparr>
          else \<lparr>valid = True, reason = None\<rparr>
      | _ \<Rightarrow> \<lparr>valid = False, reason = Some ''Could not determine both scores''\<rparr>)"

subsection \<open>Regular expressions\<close>

text \<open>
  The three patterns of \<open>parseScoreText\<close> are regular-expression literals.  They are
  embedded as values of a small syntax tree and run by a matcher that follows the
  backtracking order of ECMAScript: quantifiers are greedy, alternatives are tried from
  left to right, and \<open>String.prototype.match\<close> (no \<open>g\<close> flag) returns the first
  match at the leftmost position that has one.  Texts are sequences of ASCII characters.
\<close>

datatype cclass = Word | Digit | Space | OneOf string

datatype rx =
    Eps
  | LitI string
  | One cclass
  | Plus cclass
  | Star cclass
  | Seq rx rx
  | Alt rx rx
  | Group rx

definition is_digit :: "char \<Rightarrow> bool" where
  "is_digit c \<longleftrightarrow> c \<in> set ''0123456789''"

fun in_class :: "cclass \<Rightarrow> char \<Rightarrow> bool" where
  "in_class Word c \<longleftrightarrow>
     c \<in> set ''abcdefghijklmnopqrstuvwxyzABCDEFGHIJKLMNOPQRSTUVWXYZ0123456789_''"
| "in_class Digit c \<longleftrightarrow> is_digit c"
| "in_class Space c \<longleftrightarrow> c \<in> set [CHR '' '', CHR 0x09, CHR 0x0A, CHR 0x0B, CHR 0x0C, CHR 0x0D]"
| "in_class (OneOf cs) c \<longleftrightarrow> c \<in> set cs"

text \<open>\<open>String.prototype.toLowerCase\<close> on ASCII text.\<close>

definition lower_char :: "char \<Rightarrow> char" where
  "lower_char c =
     (case map_of (zip ''ABCDEFGHIJKLMNOPQRSTUVWXYZ'' ''abcdefghijklmnopqrstuvwxyz'') c of
        Some l \<Rightarrow> l
      | None \<Rightarrow> c)"

definition toLowerCase :: "string \<Rightarrow> string" where
  "toLowerCase s = map lower_char s"

text \<open>A literal under the \<open>i\<close> flag: the text starts with it, letter case ignored.\<close>

fun starts_with_ci :: "string \<Rightarrow> string \<Rightarrow> bool" where
  "starts_with_ci [] s \<longleftrightarrow> True"
| "starts_with_ci (l # ls) [] \<longleftrightarrow> False"
| "starts_with_ci (l # ls) (c # cs) \<longleftrightarrow> lower_char l = lower_char c \<and> starts_with_ci ls cs"

text \<open>
  \<open>rx_matches r s\<close> lists, in the order backtracking tries them, every way \<open>r\<close> can
  match at the start of \<open>s\<close>: the strings captured by the groups (in the order of their
  opening parentheses) and the text left over.  The patterns below nest no group and put no
  group inside an alternative, so position \<open>k\<close> of the capture list is group \<open>k + 1\<close>.
\<close>

fun rx_matches :: "rx \<Rightarrow> string \<Rightarrow> (string list \<times> string) list" where
  "rx_matches Eps s = [([], s)]"
| "rx_matches (LitI l) s = (if starts_with_ci l s then [([], drop (length l) s)] else [])"
| "rx_matches (One c) s =
     (case s of [] \<Rightarrow> [] | x # xs \<Rightarrow> if in_class c x then [([], xs)] else [])"
| "rx_matches (Plus c) s =
     map (\<lambda>k. ([], drop k s)) (rev [1 ..< Suc (length (takeWhile (in_class c) s))])"
| "rx_matches (Star c) s =
     map (\<lambda>k. ([], drop k s)) (rev [0 ..< Suc (length (takeWhile (in_class c) s))])"
| "rx_matches (Seq a b) s =
     concat (map (\<lambda>(cs, rest). map (\<lambda>(cs', rest'). (cs @ cs', rest')) (rx_matches b rest))
                 (rx_matches a s))"
| "rx_matches (Alt a b) s = rx_matches a s @ rx_matches b s"
| "rx_matches (Group a) s =
     map (\<lambda>(cs, rest). (take (length s - length rest) s # cs, rest)) (rx_matches a s)"

text \<open>
  \<open>text.match(pattern)\<close>: the start position moves right until the pattern matches
  there; the position at the end of the text is tried too.  \<open>None\<close> is \<open>null\<close>.
\<close>

fun rx_exec :: "rx \<Rightarrow> string \<Rightarrow> string list option" where
  "rx_exec r [] =
     (case rx_matches r [] of (cs, rest) # others \<Rightarrow> Some cs | [] \<Rightarrow> None)"
| "rx_exec r (c # t) =
     (case rx_matches r (c # t) of (cs, rest) # others \<Rightarrow> Some cs | [] \<Rightarrow> rx_exec r t)"

text \<open>Patterns without a capturing group.\<close>

fun no_group :: "rx \<Rightarrow> bool" where
  "no_group (Group a) = False"
| "no_group (Seq a b) = (no_group a \<and> no_group b)"
| "no_group (Alt a b) = (no_group a \<and> no_group b)"
| "no_group r = True"

text \<open>A non-empty string of decimal digits: what a \<open>(\d+)\<close> group captures.\<close>

definition digits :: "string \<Rightarrow> bool" where
  "digits g \<longleftrightarrow> g \<noteq> [] \<and> list_all is_digit g"

definition seq :: "rx list \<Rightarrow> rx" where
  "seq rs = foldr Seq rs Eps"

subsection \<open>parseScoreText\<close>

text \<open>
  \<open>parseInt\<close> of a string of decimal digits.  It is applied to the text of a
  \<open>(\d+)\<close> group only, which is a non-empty string of digits (see
  \<open>parseScoreText_tier1\<close> to \<open>parseScoreText_tier3\<close> below), so the \<open>NaN\<close>
  result of JavaScript does not arise.
\<close>

definition digit_val :: "char \<Rightarrow> int" where
  "digit_val c = int (length (takeWhile (\<lambda>d. d \<noteq> c) ''0123456789''))"

definition parseInt :: "string \<Rightarrow> int" where
  "parseInt s = foldl (\<lambda>n c. 10 * n + digit_val c) 0 (takeWhile is_digit s)"

text \<open>\<open>/(\w+)\s+(\d+)\s+(\w+)\s+(\d+)/i\<close>\<close>

definition pattern1 :: rx where
  "pattern1 = seq [Group (Plus Word), Plus Space, Group (Plus Digit), Plus Space,
                   Group (Plus Word), Plus Space, Group (Plus Digit)]"

text \<open>\<open>/(\w+)\s+(?:beat|def|defeated)\s+(\w+)\s+(\d+)-(\d+)/i\<close>\<close>

definition pattern2 :: rx where
  "pattern2 = seq [Group (Plus Word), Plus Space,
                   Alt (LitI ''beat'') (Alt (LitI ''def'') (LitI ''defeated'')), Plus Space,
                   Group (Plus Word), Plus Space, Group (Plus Digit), LitI ''-'',
                   Group (Plus Digit)]"

text \<open>\<open>/(\d+)\s*[-:]\s*(\d+)/\<close>\<close>

definition pattern3 :: rx where
  "pattern3 = seq [Group (Plus Digit), Star Space, One (OneOf ''-:''), Star Space,
                   Group (Plus Digit)]"

definition parseScoreText :: "string \<Rightarrow> ParsedScore" where
  "parseScoreText text =
     (case rx_exec pattern1 text of
        Some match1 \<Rightarrow>
          (let name1 = match1 ! 0; score1 = match1 ! 1; name2 = match1 ! 2; score2 = match1 ! 3;
               s1 = parseInt score1; s2 = parseInt score2
           in \<lparr>player1Name = Some name1, player2Name = Some name2,
               player1Score = Some s1, player2Score = Some s2,
               winnerName = Some (if s1 > s2 then name1 else name2),
               confidence = High, error = None\<rparr>)
      | None \<Rightarrow>
     (case rx_exec pattern2 text of
        Some match2 \<Rightarrow>
          (let winner = match2 ! 0; loser = match2 ! 1; score1 = match2 ! 2; score2 = match2 ! 3
           in \<lparr>player1Name = Some winner, player2Name = Some loser,
               player1Score = Some (parseInt score1), player2Score = Some (parseInt score2),
               winnerName = Some winner,
               confidence = High, error = None\<rparr>)
      | None \<Rightarrow>
     (case rx_exec pattern3 text of
        Some match3 \<Rightarrow>
          (let score1 = match3 ! 0; score2 = match3 ! 1
           in \<lparr>player1Name = None, player2Name = None,
               player1Score = Some (parseInt score1), player2Score = Some (parseInt score2),
               winnerName = None,
               confidence = Medium, error = None\<rparr>)
      | None \<Rightarrow>
          \<lparr>player1Name = None, player2Name = None, player1Score = None, player2Score = None,
           winnerName = None,
           confidence = Low, error = Some ''Could not parse score from text''\<rparr>)))"

text \<open>A report carrying only the two scores, as a test of the validator builds it.\<close>

definition scores_only :: "int option \<Rightarrow> int option \<Rightarrow> ParsedScore" where
  "scores_only a b =
     \<lparr>player1Name = None, player2Name = None, player1Score = a, player2Score = b,
      winnerName = None, confidence = Medium, error = None\<rparr>"

text \<open>The result of the last tier: nothing could be parsed.\<close>

definition could_not_parse :: ParsedScore where
  "could_not_parse =
     \<lparr>player1Name = None, player2Name = None, player1Score = None, player2Score = None,
      winnerName = None, confidence = Low, error = Some ''Could not parse score from text''\<rparr>"

section \<open>Database rows (src/lib/database.types.ts)\<close>

text \<open>
  Identifiers are strings (UUIDs).  A nullable column is an \<open>option\<close>.  Timestamps are
  instants on one clock, modelled as natural numbers.
\<close>

datatype MatchStatus = Pending | In_progress | Completed | Bye

datatype ScoreReportStatus = Report_pending | Approved | Rejected | Needs_clarification

datatype BracketType = Main_bracket | Consolation | Last_chance

datatype BracketStatus = Bracket_pending | Bracket_in_progress | Bracket_completed

record Player =
  pid :: string
  name :: string
  phone :: "string option"

text \<open>
  \<open>BracketMatch\<close> is the interface of the bracket generator.  \<open>Match\<close> adds the
  columns the director page reads and writes, and \<open>ActiveMatch\<close> the remaining columns
  together with the relations the SMS webhook joins to each row: both players and
  \<open>bracket.division.match_length\<close>.
\<close>

record BracketMatch =
  round_number :: nat
  match_number :: nat
  player1_id :: "string option"
  player2_id :: "string option"
  status :: MatchStatus
  winner_id :: "string option"

record Match = BracketMatch +
  bracket_id :: string
  table_number :: "nat option"

record ActiveMatch = Match +
  mid :: string
  player1_score :: int
  player2_score :: int
  completed_at :: "nat option"
  created_at :: nat
  player1 :: "Player option"
  player2 :: "Player option"
  match_length :: int

record ScoreReport =
  rid :: string
  match_id :: string
  reported_by_phone :: string
  reported_by_player_id :: "string option"
  raw_text :: string
  parsed_winner_id :: "string option"
  parsed_player1_score :: "int option"
  parsed_player2_score :: "int option"
  confidence_score :: int
  report_status :: ScoreReportStatus
  approved_at :: "nat option"

section \<open>Score report intake (the SMS webhook \<open>POST\<close>)\<close>

text \<open>
  The handler is the \<open>POST\<close> function found at the end of
  \<open>src/app/tournaments/[id]/director/page.tsx\<close>.  The model starts once the form data
  of the request has been read.  The Supabase client reports a failed query in its result
  and does not throw, so the \<open>catch\<close> branch of the handler is not reached from the
  steps modelled here.
\<close>

text \<open>
  The tables the webhook reads and writes.  The order of \<open>db_matches\<close> is the order in
  which the database returns rows to a query without an \<open>order\<close> clause.
\<close>

record store =
  db_players :: "Player list"
  db_matches :: "ActiveMatch list"
  db_score_reports :: "ScoreReport list"

text \<open>
  What a request meets outside the handler: whether the Twilio signature check lets it
  pass (always, outside production), the two readings of the clock, the identifier the
  database gives the inserted report, and whether each of the three writes succeeds.
\<close>

record env =
  signature_ok :: bool
  completed_time :: nat
  approved_time :: nat
  new_report_id :: string
  insert_report_ok :: bool
  update_match_ok :: bool
  update_report_ok :: bool

record request =
  sms_from :: string
  sms_body :: string

datatype response =
    Invalid_request
  | Player_not_found
  | No_active_match
  | Recording_error
  | Score_recorded "string option" int int
  | Pending_approval "(int \<times> int) option"

text \<open>\<open>from.replace(/\D/g, '')\<close> and the four spellings of the sender's number.\<close>

definition cleanPhone :: "string \<Rightarrow> string" where
  "cleanPhone from_number = filter is_digit from_number"

definition phoneVariants :: "string \<Rightarrow> string list" where
  "phoneVariants from_number =
     [from_number, ''+'' @ cleanPhone from_number, cleanPhone from_number,
      ''+1'' @ cleanPhone from_number]"

text \<open>The player query ends in \<open>.single()\<close>: exactly one row, or no player.\<close>

definition find_player :: "store \<Rightarrow> string \<Rightarrow> Player option" where
  "find_player st from_number =
     (case filter (\<lambda>p. case phone p of None \<Rightarrow> False
                                     | Some ph \<Rightarrow> ph \<in> set (phoneVariants from_number))
                  (db_players st) of
        [p] \<Rightarrow> Some p
      | _ \<Rightarrow> None)"

text \<open>The sender's matches whose status is \<open>pending\<close> or \<open>in_progress\<close>.\<close>

definition activeMatches :: "store \<Rightarrow> Player \<Rightarrow> ActiveMatch list" where
  "activeMatches st player =
     filter (\<lambda>m. (player1_id m = Some (pid player) \<or> player2_id m = Some (pid player))
                 \<and> (status m = Pending \<or> status m = In_progress))
            (db_matches st)"

text \<open>\<open>String.prototype.includes\<close>.\<close>

definition starts_with :: "string \<Rightarrow> string \<Rightarrow> bool" where
  "starts_with sub s \<longleftrightarrow> take (length sub) s = sub"

fun str_includes :: "string \<Rightarrow> string \<Rightarrow> bool" where
  "str_includes [] sub \<longleftrightarrow> sub = []"
| "str_includes (c # s) sub \<longleftrightarrow> starts_with sub (c # s) \<or> str_includes s sub"

text \<open>
  \<open>match.player1?.name?.toLowerCase() || ''\<close>: the lower-cased name, and the empty
  string for a missing player.
\<close>

definition lower_name :: "Player option \<Rightarrow> string" where
  "lower_name p = (case p of None \<Rightarrow> [] | Some q \<Rightarrow> toLowerCase (name q))"

text \<open>The test of the selection loop: the text includes the name of either player.\<close>

definition mentions :: "string \<Rightarrow> ActiveMatch \<Rightarrow> bool" where
  "mentions body m \<longleftrightarrow>
     str_includes (toLowerCase body) (lower_name (player1 m))
     \<or> str_includes (toLowerCase body) (lower_name (player2 m))"

text \<open>
  The target match: the first row, replaced when there are several rows by the first one
  the text mentions.  \<open>None\<close> is the early return for a sender without active match.
\<close>

definition selectTargetMatch :: "string \<Rightarrow> ActiveMatch list \<Rightarrow> ActiveMatch option" where
  "selectTargetMatch body ms =
     (case ms of
        [] \<Rightarrow> None
      | first # others \<Rightarrow>
          Some (if length ms > 1
                then (case find (mentions body) ms of Some m \<Rightarrow> m | None \<Rightarrow> first)
                else first))"

text \<open>\<open>bracket?.division?.match_length || 9\<close>\<close>

definition matchLengthOf :: "ActiveMatch \<Rightarrow> int" where
  "matchLengthOf m = (if match_length m = 0 then 9 else match_length m)"

text \<open>Truthiness of a \<open>string | null\<close> or \<open>string | undefined\<close> value.\<close>

definition truthy :: "string option \<Rightarrow> bool" where
  "truthy v \<longleftrightarrow> (case v of None \<Rightarrow> False | Some s \<Rightarrow> s \<noteq> [])"

text \<open>
  \<open>p?.name?.toLowerCase().includes(winnerNameLower)\<close>, which is \<open>undefined\<close> and so
  false for a missing player.
\<close>

definition name_includes :: "Player option \<Rightarrow> string \<Rightarrow> bool" where
  "name_includes p w \<longleftrightarrow> (case p of None \<Rightarrow> False | Some q \<Rightarrow> str_includes (toLowerCase (name q)) w)"

text \<open>The block that computes \<open>parsedWinnerId\<close>.\<close>

definition resolveWinner :: "ParsedScore \<Rightarrow> ActiveMatch \<Rightarrow> int \<Rightarrow> string option" where
  "resolveWinner parsed targetMatch matchLength =
     (case (player1Score parsed, player2Score parsed) of
        (Some s1, Some s2) \<Rightarrow>
          if valid (validateScore parsed matchLength) then
            (let byName =
               (case winnerName parsed of
                  None \<Rightarrow> None
                | Some w \<Rightarrow>
                    if w = [] then None
                    else
                      (let winnerNameLower = toLowerCase w in
                       if name_includes (player1 targetMatch) winnerNameLower
                       then map_option pid (player1 targetMatch)
                       else if name_includes (player2 targetMatch) winnerNameLower
                       then map_option pid (player2 targetMatch)
                       else None))
             in if \<not> truthy byName
                then (if s1 > s2 then player1_id targetMatch else player2_id targetMatch)
                else byName)
          else None
      | _ \<Rightarrow> None)"

text \<open>The block that computes \<open>confidenceScore\<close>.\<close>

definition confidenceScore :: "ParsedScore \<Rightarrow> int \<Rightarrow> int" where
  "confidenceScore parsed matchLength =
     (let base = (case confidence parsed of High \<Rightarrow> 90 | Medium \<Rightarrow> 60 | Low \<Rightarrow> 30)
      in if player1Score parsed \<noteq> None \<and> player2Score parsed \<noteq> None
            \<and> \<not> valid (validateScore parsed matchLength)
         then min base 40
         else base)"

text \<open>The row inserted into \<open>score_reports\<close>.\<close>

definition new_report :: "env \<Rightarrow> request \<Rightarrow> Player \<Rightarrow> ActiveMatch \<Rightarrow> ScoreReport" where
  "new_report e rq player targetMatch =
     (let parsed = parseScoreText (sms_body rq);
          matchLength = matchLengthOf targetMatch
      in \<lparr>rid = new_report_id e,
          match_id = mid targetMatch,
          reported_by_phone = sms_from rq,
          reported_by_player_id = Some (pid player),
          raw_text = sms_body rq,
          parsed_winner_id = resolveWinner parsed targetMatch matchLength,
          parsed_player1_score = player1Score parsed,
          parsed_player2_score = player2Score parsed,
          confidence_score = confidenceScore parsed matchLength,
          report_status = Report_pending,
          approved_at = None\<rparr>)"

text \<open>The three writes of the handler.\<close>

definition insert_report :: "store \<Rightarrow> ScoreReport \<Rightarrow> store" where
  "insert_report st r = st\<lparr>db_score_reports := db_score_reports st @ [r]\<rparr>"

definition complete_match :: "store \<Rightarrow> string \<Rightarrow> string option \<Rightarrow> int \<Rightarrow> int \<Rightarrow> nat \<Rightarrow> store" where
  "complete_match st target w s1 s2 t =
     st\<lparr>db_matches :=
          map (\<lambda>m. if mid m = target
                    then m\<lparr>winner_id := w, player1_score := s1, player2_score := s2,
                           status := Completed, completed_at := Some t\<rparr>
                    else m)
              (db_matches st)\<rparr>"

definition approve_report :: "store \<Rightarrow> string \<Rightarrow> nat \<Rightarrow> store" where
  "approve_report st r t =
     st\<lparr>db_score_reports :=
          map (\<lambda>x. if rid x = r then x\<lparr>report_status := Approved, approved_at := Some t\<rparr>
                    else x)
              (db_score_reports st)\<rparr>"

text \<open>
  The condition under which the handler applies the report itself:
  \<open>confidenceScore >= 90 && parsedWinnerId && parsed.player1Score !== undefined &&
  parsed.player2Score !== undefined\<close>.
\<close>

definition auto_apply :: "ScoreReport \<Rightarrow> bool" where
  "auto_apply r \<longleftrightarrow>
     confidence_score r \<ge> 90 \<and> truthy (parsed_winner_id r)
     \<and> parsed_player1_score r \<noteq> None \<and> parsed_player2_score r \<noteq> None"

text \<open>
  The handler.  It returns the reply and the states of the store after each write that
  took effect, in the order of the writes: what a reader of the database can see while
  and after the handler runs.  The result of the last write is not checked by the source.
\<close>

definition POST :: "env \<Rightarrow> store \<Rightarrow> request \<Rightarrow> response \<times> store list" where
  "POST e st rq =
     (if \<not> signature_ok e then (Invalid_request, [])
      else case find_player st (sms_from rq) of
        None \<Rightarrow> (Player_not_found, [])
      | Some player \<Rightarrow>
     (case selectTargetMatch (sms_body rq) (activeMatches st player) of
        None \<Rightarrow> (No_active_match, [])
      | Some targetMatch \<Rightarrow>
     (let scoreReport = new_report e rq player targetMatch;
          pending =
            Pending_approval
              (case (parsed_player1_score scoreReport, parsed_player2_score scoreReport) of
                 (Some s1, Some s2) \<Rightarrow> Some (s1, s2)
               | _ \<Rightarrow> None)
      in if \<not> insert_report_ok e then (Recording_error, [])
         else
           (let st1 = insert_report st scoreReport
            in case (parsed_player1_score scoreReport, parsed_player2_score scoreReport) of
                 (Some s1, Some s2) \<Rightarrow>
                   if confidence_score scoreReport \<ge> 90 \<and> truthy (parsed_winner_id scoreReport)
                   then
                     (if update_match_ok e then
                        (let st2 = complete_match st1 (mid targetMatch)
                                     (parsed_winner_id scoreReport) s1 s2 (completed_time e);
                             winner =
                               (if parsed_winner_id scoreReport = player1_id targetMatch
                                then map_option name (player1 targetMatch)
                                else map_option name (player2 targetMatch))
                         in (Score_recorded winner s1 s2,
                             if update_report_ok e
                             then [st1, st2,
                                   approve_report st2 (rid scoreReport) (approved_time e)]
                             else [st1, st2]))
                      else (pending, [st1]))
                   else (pending, [st1])
               | _ \<Rightarrow> (pending, [st1])))))"

subsection \<open>A tournament table for the examples\<close>

definition john :: Player where
  "john = \<lparr>pid = ''p-john'', name = ''John'', phone = Some ''+15550101''\<rparr>"

definition sarah :: Player where
  "sarah = \<lparr>pid = ''p-sarah'', name = ''Sarah'', phone = Some ''+15550102''\<rparr>"

definition mike :: Player where
  "mike = \<lparr>pid = ''p-mike'', name = ''Mike'', phone = Some ''+15550103''\<rparr>"

definition lisa :: Player where
  "lisa = \<lparr>pid = ''p-lisa'', name = ''Lisa'', phone = Some ''+15550104''\<rparr>"

text \<open>A match of a nine-point division that is being played.\<close>

definition match_of :: "string \<Rightarrow> string \<Rightarrow> nat \<Rightarrow> Player \<Rightarrow> Player \<Rightarrow> ActiveMatch" where
  "match_of i b t p q =
     \<lparr>round_number = 1, match_number = 1, player1_id = Some (pid p), player2_id = Some (pid q),
      status = In_progress, winner_id = None, bracket_id = b, table_number = Some 1,
      mid = i, player1_score = 0, player2_score = 0, completed_at = None, created_at = t,
      player1 = Some p, player2 = Some q, match_length = 9\<rparr>"

definition john_sarah :: ActiveMatch where
  "john_sarah = match_of ''m-1'' ''b-main'' 100 john sarah"

definition mike_lisa :: ActiveMatch where
  "mike_lisa = match_of ''m-2'' ''b-main'' 100 mike lisa"

definition john_mike :: ActiveMatch where
  "john_mike = match_of ''m-3'' ''b-consolation'' 200 john mike"

definition example_store :: store where
  "example_store =
     \<lparr>db_players = [john, sarah, mike, lisa], db_matches = [john_sarah, mike_lisa],
      db_score_reports = []\<rparr>"

definition example_env :: env where
  "example_env =
     \<lparr>signature_ok = True, completed_time = 300, approved_time = 301,
      new_report_id = ''r-1'', insert_report_ok = True, update_match_ok = True,
      update_report_ok = True\<rparr>"

definition two_match_store :: store where
  "two_match_store =
     \<lparr>db_players = [john, sarah, mike, lisa], db_matches = [john_mike, john_sarah],
      db_score_reports = []\<rparr>"

text \<open>The same match in a division whose \<open>match_length\<close> column holds 0.\<close>

definition john_sarah_zero :: ActiveMatch where
  "john_sarah_zero = john_sarah\<lparr>match_length := 0\<rparr>"

definition zero_length_store :: store where
  "zero_length_store =
     \<lparr>db_players = [john, sarah, mike, lisa], db_matches = [john_sarah_zero],
      db_score_reports = []\<rparr>"

definition john_reports :: request where
  "john_reports = \<lparr>sms_from = ''+15550101'', sms_body = ''John 9 Sarah 4''\<rparr>"

definition john_reports_bare :: request where
  "john_reports_bare = \<lparr>sms_from = ''+15550101'', sms_body = ''9-4''\<rparr>"

definition mike_reports :: request where
  "mike_reports = \<lparr>sms_from = ''+15550103'', sms_body = ''Mike beat Lisa 7-2''\<rparr>"

definition mike_reports_nine :: request where
  "mike_reports_nine = \<lparr>sms_from = ''+15550103'', sms_body = ''Mike beat Lisa 9-2''\<rparr>"

text \<open>
  The state the claim about atomic application excludes: the match is completed and a
  report on it is not approved.
\<close>

definition applied_unapproved :: "store \<Rightarrow> string \<Rightarrow> bool" where
  "applied_unapproved st m \<longleftrightarrow>
     list_ex (\<lambda>x. mid x = m \<and> status x = Completed) (db_matches st)
     \<and> list_ex (\<lambda>r. match_id r = m \<and> report_status r \<noteq> Approved) (db_score_reports st)"

section \<open>Bracket generator\<close>

text \<open>
  The module that exports \<open>generateRound1Matches\<close> (second part of
  \<open>src/unnamed/part_000\<close>).
\<close>

text \<open>
  \<open>Math.pow(2, Math.ceil(Math.log2(n)))\<close>.  For \<open>n = 0\<close> the logarithm is
  \<open>-Infinity\<close> and the power is 0; otherwise the floating-point result is taken to be
  the exact one, \<open>2\<close> to the power \<open>\<lceil>log\<^sub>2 n\<rceil>\<close>.
\<close>

definition nextPowerOf2 :: "nat \<Rightarrow> nat" where
  "nextPowerOf2 n = (if n = 0 then 0 else 2 ^ ceillog2 n)"

text \<open>
  The Fisher-Yates loop of \<open>shuffle\<close>, for \<open>i\<close> from \<open>length - 1\<close> down to 1.
  \<open>Math.floor(Math.random() * (i + 1))\<close> is some index between 0 and \<open>i\<close>: the draw
  made at index \<open>i\<close> is \<open>r i mod (i + 1)\<close> for an arbitrary \<open>r\<close>.
\<close>

fun shuffle_loop :: "(nat \<Rightarrow> nat) \<Rightarrow> nat \<Rightarrow> 'a list \<Rightarrow> 'a list" where
  "shuffle_loop r 0 shuffled = shuffled"
| "shuffle_loop r (Suc k) shuffled =
     (let i = Suc k; j = r i mod (i + 1)
      in shuffle_loop r k (shuffled[i := shuffled ! j, j := shuffled ! i]))"

definition shuffle :: "(nat \<Rightarrow> nat) \<Rightarrow> 'a list \<Rightarrow> 'a list" where
  "shuffle r array = shuffle_loop r (length array - 1) array"

text \<open>The first loop of \<open>generateRound1Matches\<close>: a bye for each of the bye players.\<close>

fun bye_matches :: "nat \<Rightarrow> Player list \<Rightarrow> BracketMatch list" where
  "bye_matches matchNumber [] = []"
| "bye_matches matchNumber (player # byePlayers) =
     \<lparr>round_number = 1, match_number = matchNumber, player1_id = Some (pid player),
      player2_id = None, status = Bye, winner_id = Some (pid player)\<rparr>
     # bye_matches (matchNumber + 1) byePlayers"

text \<open>
  The second loop, over the regular players two at a time.  \<open>regularPlayers[i + 1]?.id ||
  null\<close> is \<open>null\<close> for a missing player and for an empty identifier; status and winner
  test the player object itself.
\<close>

fun regular_matches :: "nat \<Rightarrow> Player list \<Rightarrow> BracketMatch list" where
  "regular_matches matchNumber [] = []"
| "regular_matches matchNumber [p] =
     [\<lparr>round_number = 1, match_number = matchNumber, player1_id = Some (pid p),
       player2_id = None, status = Bye, winner_id = Some (pid p)\<rparr>]"
| "regular_matches matchNumber (p # q # regularPlayers) =
     \<lparr>round_number = 1, match_number = matchNumber, player1_id = Some (pid p),
      player2_id = (if pid q = [] then None else Some (pid q)), status = Pending,
      winner_id = None\<rparr>
     # regular_matches (matchNumber + 1) regularPlayers"

text \<open>
  \<open>generateRound1Matches\<close>.  The body does not use \<open>startingTableNumber\<close>.  The bracket
  size is never below the number of players (\<open>nextPowerOf2_ge\<close>), so \<open>byeCount\<close> is not
  negative.
\<close>

definition generateRound1Matches ::
    "(nat \<Rightarrow> nat) \<Rightarrow> Player list \<Rightarrow> nat \<Rightarrow> BracketMatch list" where
  "generateRound1Matches r players startingTableNumber =
     (let shuffledPlayers = shuffle r players;
          bracketSize = nextPowerOf2 (length shuffledPlayers);
          byeCount = bracketSize - length shuffledPlayers;
          byePlayers = take byeCount shuffledPlayers;
          regularPlayers = drop byeCount shuffledPlayers
      in bye_matches 1 byePlayers @ regular_matches (1 + length byePlayers) regularPlayers)"

text \<open>The players of a round, each match giving its first and its second player.\<close>

definition participants :: "BracketMatch list \<Rightarrow> string list" where
  "participants ms =
     concat (map (\<lambda>m. (case player1_id m of None \<Rightarrow> [] | Some a \<Rightarrow> [a])
                       @ (case player2_id m of None \<Rightarrow> [] | Some b \<Rightarrow> [b])) ms)"

definition byes :: "BracketMatch list \<Rightarrow> BracketMatch list" where
  "byes ms = filter (\<lambda>m. status m = Bye) ms"

section \<open>Director page (\<open>handleAdvanceRound\<close>)\<close>

text \<open>\<open>src/app/tournaments/[id]/director/page.tsx\<close>, the dashboard component.\<close>

record Bracket =
  bid :: string
  bracket_type :: BracketType
  current_round :: nat
  bracket_status :: BracketStatus

record BracketWithMatches = Bracket +
  matches :: "Match list"

text \<open>The brackets of a division as the page holds them; its own columns are not read here.\<close>

record DivisionWithBrackets =
  mainBracket :: "BracketWithMatches option"
  consolationBracket :: "BracketWithMatches option"

text \<open>The brackets of one division and the rows of the \<open>matches\<close> table.\<close>

record director_db =
  bracket_rows :: "Bracket list"
  match_rows :: "Match list"

text \<open>
  \<open>loadData\<close> for one division: each bracket with its matches ordered by
  \<open>round_number\<close>, then \<open>match_number\<close>; a later bracket of the same type replaces an
  earlier one.
\<close>

definition load_bracket :: "director_db \<Rightarrow> Bracket \<Rightarrow> BracketWithMatches" where
  "load_bracket db b =
     Bracket.extend b
       (BracketWithMatches.fields
          (sort_key round_number
             (sort_key match_number (filter (\<lambda>m. bracket_id m = bid b) (match_rows db)))))"

definition loadData :: "director_db \<Rightarrow> DivisionWithBrackets" where
  "loadData db =
     foldl (\<lambda>divisionData bracket.
              if bracket_type bracket = Main_bracket
              then divisionData\<lparr>mainBracket := Some (load_bracket db bracket)\<rparr>
              else if bracket_type bracket = Consolation
              then divisionData\<lparr>consolationBracket := Some (load_bracket db bracket)\<rparr>
              else divisionData)
           \<lparr>mainBracket = None, consolationBracket = None\<rparr>
           (bracket_rows db)"

definition getCurrentRoundMatches :: "DivisionWithBrackets \<Rightarrow> Match list" where
  "getCurrentRoundMatches division =
     (let mainMatches = (case mainBracket division of None \<Rightarrow> [] | Some b \<Rightarrow> matches b);
          consolationMatches =
            (case consolationBracket division of None \<Rightarrow> [] | Some b \<Rightarrow> matches b);
          allMatches = mainMatches @ consolationMatches;
          currentRound =
            (case mainBracket division of
               None \<Rightarrow> 1
             | Some b \<Rightarrow> if current_round b = 0 then 1 else current_round b)
      in filter (\<lambda>m. round_number m = currentRound) allMatches)"

definition canAdvanceRound :: "DivisionWithBrackets \<Rightarrow> bool" where
  "canAdvanceRound division =
     (let currentMatches = getCurrentRoundMatches division
      in length currentMatches > 0
         \<and> list_all (\<lambda>m. status m = Completed \<or> status m = Bye) currentMatches)"

text \<open>
  The two pairing loops of \<open>handleAdvanceRound\<close>.  They differ in the table number only:
  the main bracket gives a played match the number \<open>matchNumber\<close> has after its
  increment, the consolation bracket sets none.  \<open>player2 || null\<close> and
  \<open>player2 ? ... : ...\<close> treat an empty identifier like a missing player (\<open>p1\<close> and
  \<open>p2\<close> stand for the source's \<open>player1\<close> and \<open>player2\<close>).
\<close>

fun pair_players :: "string \<Rightarrow> nat \<Rightarrow> bool \<Rightarrow> nat \<Rightarrow> string list \<Rightarrow> Match list" where
  "pair_players b r tables matchNumber [] = []"
| "pair_players b r tables matchNumber [p1] =
     [\<lparr>round_number = r, match_number = matchNumber, player1_id = Some p1,
       player2_id = None, status = Bye, winner_id = Some p1,
       bracket_id = b, table_number = None\<rparr>]"
| "pair_players b r tables matchNumber (p1 # p2 # ps) =
     (if p2 \<noteq> []
      then \<lparr>round_number = r, match_number = matchNumber, player1_id = Some p1,
            player2_id = Some p2, status = Pending, winner_id = None,
            bracket_id = b,
            table_number = (if tables then Some (matchNumber + 1) else None)\<rparr>
      else \<lparr>round_number = r, match_number = matchNumber, player1_id = Some p1,
            player2_id = None, status = Bye, winner_id = Some p1,
            bracket_id = b, table_number = None\<rparr>)
     # pair_players b r tables (matchNumber + 1) ps"

text \<open>\<open>mainMatches.filter((m) => m.winner_id).map((m) => m.winner_id!)\<close>\<close>

definition winners_of :: "Match list \<Rightarrow> string list" where
  "winners_of mainMatches =
     concat (map (\<lambda>m. case winner_id m of None \<Rightarrow> [] | Some w \<Rightarrow> if w = [] then [] else [w])
                 mainMatches)"

text \<open>The losers of the completed matches: the player who is not the winner, unless \<open>null\<close>.\<close>

definition losers_of :: "Match list \<Rightarrow> string list" where
  "losers_of mainMatches =
     concat (map (\<lambda>m. case (if winner_id m = player1_id m then player2_id m else player1_id m) of
                         None \<Rightarrow> []
                       | Some l \<Rightarrow> [l])
                 (filter (\<lambda>m. status m = Completed \<and> truthy (winner_id m)) mainMatches))"

text \<open>
  Whether each write of the handler succeeds.  A failed insert throws, which ends the
  handler with the error toast; the results of the two bracket updates are not checked.
\<close>

record advance_env =
  insert_main_ok :: bool
  insert_consolation_ok :: bool
  update_consolation_ok :: bool
  update_main_ok :: bool

datatype toast = Advanced_to_round nat | Failed_to_advance

definition set_round :: "director_db \<Rightarrow> string \<Rightarrow> nat \<Rightarrow> bool \<Rightarrow> director_db" where
  "set_round db b r start =
     db\<lparr>bracket_rows :=
          map (\<lambda>x. if bid x = b
                    then (if start then x\<lparr>current_round := r, bracket_status := Bracket_in_progress\<rparr>
                          else x\<lparr>current_round := r\<rparr>)
                    else x)
              (bracket_rows db)\<rparr>"

definition insert_matches :: "director_db \<Rightarrow> Match list \<Rightarrow> director_db" where
  "insert_matches db new = db\<lparr>match_rows := match_rows db @ new\<rparr>"

text \<open>
  \<open>handleAdvanceRound\<close> on the division the page holds (\<open>None\<close>: no active division).
  It returns the toast shown, if any, and the database after its writes.
\<close>

definition handleAdvanceRound ::
    "advance_env \<Rightarrow> DivisionWithBrackets option \<Rightarrow> director_db \<Rightarrow> toast option \<times> director_db" where
  "handleAdvanceRound e division db =
     (case division of
        None \<Rightarrow> (None, db)
      | Some d \<Rightarrow>
     (case mainBracket d of
        None \<Rightarrow> (None, db)
      | Some mb \<Rightarrow>
     (let currentRound = current_round mb;
          mainMatches = filter (\<lambda>m. round_number m = currentRound) (matches mb);
          winners = winners_of mainMatches;
          losers = losers_of mainMatches;
          nextRound = currentRound + 1;
          newMainMatches = pair_players (bid mb) nextRound True 1 winners;
          finish = (\<lambda>db'. (Some (Advanced_to_round nextRound),
                            if update_main_ok e then set_round db' (bid mb) nextRound False
                            else db'))
      in if newMainMatches \<noteq> [] \<and> \<not> insert_main_ok e then (Some Failed_to_advance, db)
         else
           (let db1 = (if newMainMatches \<noteq> [] then insert_matches db newMainMatches else db)
            in case consolationBracket d of
                 None \<Rightarrow> finish db1
               | Some cb \<Rightarrow>
                   if losers \<noteq> [] then
                     (let consolationMatches = pair_players (bid cb) nextRound False 1 losers
                      in if consolationMatches \<noteq> [] \<and> \<not> insert_consolation_ok e
                         then (Some Failed_to_advance, db1)
                         else
                           (let db2 = (if consolationMatches \<noteq> []
                                       then insert_matches db1 consolationMatches else db1);
                                db3 = (if update_consolation_ok e
                                       then set_round db2 (bid cb) nextRound True else db2)
                            in finish db3))
                   else finish db1))))"

text \<open>One press of the button: the handler on the freshly loaded division.\<close>

definition advanceRound :: "advance_env \<Rightarrow> director_db \<Rightarrow> toast option \<times> director_db" where
  "advanceRound e db = handleAdvanceRound e (Some (loadData db)) db"

text \<open>
  What one invocation reads from the division it is given: the winners recorded in the
  current round of the main bracket, and the main-bracket matches it builds from them.
\<close>

definition current_winners :: "BracketWithMatches \<Rightarrow> string list" where
  "current_winners mb =
     winners_of (filter (\<lambda>m. round_number m = current_round mb) (matches mb))"

definition next_main_matches :: "BracketWithMatches \<Rightarrow> Match list" where
  "next_main_matches mb =
     pair_players (bid mb) (current_round mb + 1) True 1 (current_winners mb)"

subsection \<open>A final for the examples\<close>

definition all_ok :: advance_env where
  "all_ok = \<lparr>insert_main_ok = True, insert_consolation_ok = True,
             update_consolation_ok = True, update_main_ok = True\<rparr>"

definition final_played :: director_db where
  "final_played =
     \<lparr>bracket_rows =
        [\<lparr>bid = ''b-main'', bracket_type = Main_bracket, current_round = 1,
          bracket_status = Bracket_in_progress\<rparr>],
      match_rows =
        [\<lparr>round_number = 1, match_number = 1, player1_id = Some ''p-john'',
          player2_id = Some ''p-sarah'', status = Completed, winner_id = Some ''p-john'',
          bracket_id = ''b-main'', table_number = Some 1\<rparr>]\<rparr>"

definition final_main :: BracketWithMatches where
  "final_main =
     \<lparr>bid = ''b-main'', bracket_type = Main_bracket, current_round = 1,
      bracket_status = Bracket_in_progress,
      matches =
        [\<lparr>round_number = 1, match_number = 1, player1_id = Some ''p-john'',
          player2_id = Some ''p-sarah'', status = Completed, winner_id = Some ''p-john'',
          bracket_id = ''b-main'', table_number = Some 1\<rparr>]\<rparr>"

text \<open>The main bracket as the page loads it after the first advance of that final.\<close>

definition final_main_advanced :: BracketWithMatches where
  "final_main_advanced =
     \<lparr>bid = ''b-main'', bracket_type = Main_bracket, current_round = 2,
      bracket_status = Bracket_in_progress,
      matches =
        [\<lparr>round_number = 1, match_number = 1, player1_id = Some ''p-john'',
          player2_id = Some ''p-sarah'', status = Completed, winner_id = Some ''p-john'',
          bracket_id = ''b-main'', table_number = Some 1\<rparr>,
         \<lparr>round_number = 2, match_number = 1, player1_id = Some ''p-john'',
          player2_id = None, status = Bye, winner_id = Some ''p-john'',
          bracket_id = ''b-main'', table_number = None\<rparr>]\<rparr>"

section \<open>Properties of the matcher\<close>

lemma seq_Cons: "seq (r # rs) = Seq r (seq rs)" and seq_Nil: "seq [] = Eps"
  by (simp_all add: seq_def)

lemma rx_exec_Some:
  "rx_exec r s = Some cs \<Longrightarrow> \<exists>t rest. (cs, rest) \<in> set (rx_matches r t)"
proof (induction s)
  case Nil
  then have "(cs, snd (hd (rx_matches r []))) \<in> set (rx_matches r [])"
    by (auto split: list.splits)
  then show ?case by blast
next
  case (Cons c s)
  show ?case
  proof (cases "rx_matches r (c # s)")
    case Nil
    with Cons show ?thesis by simp
  next
    case (Cons m ms)
    with Cons.prems have "(cs, snd m) \<in> set (rx_matches r (c # s))"
      by (cases m) auto
    then show ?thesis by blast
  qed
qed

lemma no_group_captures:
  "no_group a \<Longrightarrow> (cs, rest) \<in> set (rx_matches a s) \<Longrightarrow> cs = []"
proof (induction a arbitrary: cs rest s)
  case (Seq a b)
  then show ?case by fastforce
next
  case (Alt a b)
  then show ?case by fastforce
qed (auto split: if_splits list.splits)

lemma take_takeWhile_prefix:
  "k \<le> length (takeWhile P s) \<Longrightarrow> take k s = take k (takeWhile P s)"
proof (induction s arbitrary: k)
  case Nil
  then show ?case by simp
next
  case (Cons x xs)
  then show ?case by (cases k) (auto split: if_splits)
qed

lemma plus_capture:
  assumes "1 \<le> k" "k \<le> length (takeWhile P s)"
  shows "take (length s - length (drop k s)) s \<noteq> [] \<and>
         (\<forall>c \<in> set (take (length s - length (drop k s)) s). P c)"
proof -
  have le: "k \<le> length s"
    using assms(2) length_takeWhile_le [of P s] by linarith
  then have eq: "take (length s - length (drop k s)) s = take k (takeWhile P s)"
    using take_takeWhile_prefix [OF assms(2)] by simp
  have "set (take k (takeWhile P s)) \<subseteq> set (takeWhile P s)"
    by (rule set_take_subset)
  then have "\<forall>c \<in> set (take k (takeWhile P s)). P c"
    by (auto dest: set_takeWhileD)
  moreover have "take k (takeWhile P s) \<noteq> []"
    using assms by auto
  ultimately show ?thesis using eq by simp
qed

text \<open>A leading \<open>(c+)\<close> group captures a non-empty string of the class \<open>c\<close>.\<close>

lemma seq_group_plus:
  assumes "(cs, rest) \<in> set (rx_matches (Seq (Group (Plus c)) r) s)"
  obtains g cs' s' where "cs = g # cs'" "g \<noteq> []" "\<forall>x \<in> set g. in_class c x"
    "(cs', rest) \<in> set (rx_matches r s')"
proof -
  from assms obtain k cs' where k: "1 \<le> k" "k \<le> length (takeWhile (in_class c) s)"
    and cs: "cs = take (length s - length (drop k s)) s # cs'"
    and r: "(cs', rest) \<in> set (rx_matches r (drop k s))"
    by auto
  from plus_capture [OF k] cs r that show thesis by blast
qed

lemma seq_skip:
  assumes "no_group a" "(cs, rest) \<in> set (rx_matches (Seq a r) s)"
  obtains s' where "(cs, rest) \<in> set (rx_matches r s')"
proof -
  from assms(2) obtain ca ra cb where a: "(ca, ra) \<in> set (rx_matches a s)"
    and b: "(cb, rest) \<in> set (rx_matches r ra)" and cs: "cs = ca @ cb"
    by auto
  from no_group_captures [OF assms(1) a] have "ca = []" .
  with b cs that show thesis by simp
qed

lemma no_group_space: "no_group (Plus Space)" "no_group (Star Space)"
  and no_group_sep: "no_group (One (OneOf cs))" "no_group (LitI l)"
  and no_group_verb: "no_group (Alt (LitI a) (Alt (LitI b) (LitI c)))"
  by simp_all

lemma group_plus_last:
  assumes "(cs, rest) \<in> set (rx_matches (Seq (Group (Plus c)) Eps) s)"
  obtains g where "cs = [g]" "g \<noteq> []" "\<forall>x \<in> set g. in_class c x"
proof -
  from assms obtain g cs' s' where "cs = g # cs'" "g \<noteq> []" "\<forall>x \<in> set g. in_class c x"
    "(cs', rest) \<in> set (rx_matches Eps s')"
    by (rule seq_group_plus)
  then show thesis using that by simp
qed

lemma digitsI: "g \<noteq> [] \<Longrightarrow> \<forall>x \<in> set g. in_class Digit x \<Longrightarrow> digits g"
  by (simp add: digits_def list_all_iff)

text \<open>The groups of the three patterns: their number, and digits where \<open>\d+\<close> stands.\<close>

lemma pattern3_groups:
  assumes "rx_exec pattern3 t = Some cs"
  shows "\<exists>a b. cs = [a, b] \<and> digits a \<and> digits b"
proof -
  note sq = seq_Cons seq_Nil
  from rx_exec_Some [OF assms] obtain t' rest
    where 0: "(cs, rest) \<in> set (rx_matches pattern3 t')" by blast
  from 0 obtain a c1 s1 where a: "cs = a # c1" "a \<noteq> []" "\<forall>x \<in> set a. in_class Digit x"
    and 1: "(c1, rest) \<in> set (rx_matches (seq [Star Space, One (OneOf ''-:''), Star Space,
                   Group (Plus Digit)]) s1)"
    unfolding pattern3_def sq by (rule seq_group_plus)
  from 1 obtain s2 where 2: "(c1, rest) \<in> set (rx_matches (seq [One (OneOf ''-:''), Star Space,
                   Group (Plus Digit)]) s2)"
    unfolding sq by (rule seq_skip [OF no_group_space(2)])
  from 2 obtain s3 where 3: "(c1, rest) \<in> set (rx_matches (seq [Star Space,
                   Group (Plus Digit)]) s3)"
    unfolding sq by (rule seq_skip [OF no_group_sep(1)])
  from 3 obtain s4 where 4: "(c1, rest) \<in> set (rx_matches (seq [Group (Plus Digit)]) s4)"
    unfolding sq by (rule seq_skip [OF no_group_space(2)])
  from 4 obtain b where "c1 = [b]" "b \<noteq> []" "\<forall>x \<in> set b. in_class Digit x"
    unfolding sq by (rule group_plus_last)
  with a show ?thesis by (simp add: digitsI)
qed

lemma pattern1_groups:
  assumes "rx_exec pattern1 t = Some cs"
  shows "\<exists>a b c d. cs = [a, b, c, d] \<and> digits b \<and> digits d"
proof -
  note sq = seq_Cons seq_Nil
  from rx_exec_Some [OF assms] obtain t' rest
    where 0: "(cs, rest) \<in> set (rx_matches pattern1 t')" by blast
  from 0 obtain a c1 s1 where a: "cs = a # c1"
    and 1: "(c1, rest) \<in> set (rx_matches (seq [Plus Space, Group (Plus Digit), Plus Space,
                   Group (Plus Word), Plus Space, Group (Plus Digit)]) s1)"
    unfolding pattern1_def sq by (rule seq_group_plus)
  from 1 obtain s2 where 2: "(c1, rest) \<in> set (rx_matches (seq [Group (Plus Digit), Plus Space,
                   Group (Plus Word), Plus Space, Group (Plus Digit)]) s2)"
    unfolding sq by (rule seq_skip [OF no_group_space(1)])
  from 2 obtain b c2 s3 where b: "c1 = b # c2" "b \<noteq> []" "\<forall>x \<in> set b. in_class Digit x"
    and 3: "(c2, rest) \<in> set (rx_matches (seq [Plus Space,
                   Group (Plus Word), Plus Space, Group (Plus Digit)]) s3)"
    unfolding sq by (rule seq_group_plus)
  from 3 obtain s4 where 4: "(c2, rest) \<in> set (rx_matches (seq [Group (Plus Word), Plus Space,
                   Group (Plus Digit)]) s4)"
    unfolding sq by (rule seq_skip [OF no_group_space(1)])
  from 4 obtain c c3 s5 where c: "c2 = c # c3"
    and 5: "(c3, rest) \<in> set (rx_matches (seq [Plus Space, Group (Plus Digit)]) s5)"
    unfolding sq by (rule seq_group_plus)
  from 5 obtain s6 where 6: "(c3, rest) \<in> set (rx_matches (seq [Group (Plus Digit)]) s6)"
    unfolding sq by (rule seq_skip [OF no_group_space(1)])
  from 6 obtain d where "c3 = [d]" "d \<noteq> []" "\<forall>x \<in> set d. in_class Digit x"
    unfolding sq by (rule group_plus_last)
  with a b c show ?thesis by (simp add: digitsI)
qed

lemma pattern2_groups:
  assumes "rx_exec pattern2 t = Some cs"
  shows "\<exists>a b c d. cs = [a, b, c, d] \<and> digits c \<and> digits d"
proof -
  note sq = seq_Cons seq_Nil
  from rx_exec_Some [OF assms] obtain t' rest
    where 0: "(cs, rest) \<in> set (rx_matches pattern2 t')" by blast
  from 0 obtain a c1 s1 where a: "cs = a # c1"
    and 1: "(c1, rest) \<in> set (rx_matches (seq [Plus Space,
                   Alt (LitI ''beat'') (Alt (LitI ''def'') (LitI ''defeated'')), Plus Space,
                   Group (Plus Word), Plus Space, Group (Plus Digit), LitI ''-'',
                   Group (Plus Digit)]) s1)"
    unfolding pattern2_def sq by (rule seq_group_plus)
  from 1 obtain s2 where 2: "(c1, rest) \<in> set (rx_matches (seq [
                   Alt (LitI ''beat'') (Alt (LitI ''def'') (LitI ''defeated'')), Plus Space,
                   Group (Plus Word), Plus Space, Group (Plus Digit), LitI ''-'',
                   Group (Plus Digit)]) s2)"
    unfolding sq by (rule seq_skip [OF no_group_space(1)])
  from 2 obtain s3 where 3: "(c1, rest) \<in> set (rx_matches (seq [Plus Space,
                   Group (Plus Word), Plus Space, Group (Plus Digit), LitI ''-'',
                   Group (Plus Digit)]) s3)"
    unfolding sq by (rule seq_skip [OF no_group_verb])
  from 3 obtain s4 where 4: "(c1, rest) \<in> set (rx_matches (seq [
                   Group (Plus Word), Plus Space, Group (Plus Digit), LitI ''-'',
                   Group (Plus Digit)]) s4)"
    unfolding sq by (rule seq_skip [OF no_group_space(1)])
  from 4 obtain b c2 s5 where b: "c1 = b # c2"
    and 5: "(c2, rest) \<in> set (rx_matches (seq [Plus Space, Group (Plus Digit), LitI ''-'',
                   Group (Plus Digit)]) s5)"
    unfolding sq by (rule seq_group_plus)
  from 5 obtain s6 where 6: "(c2, rest) \<in> set (rx_matches (seq [Group (Plus Digit), LitI ''-'',
                   Group (Plus Digit)]) s6)"
    unfolding sq by (rule seq_skip [OF no_group_space(1)])
  from 6 obtain c c3 s7 where c: "c2 = c # c3" "c \<noteq> []" "\<forall>x \<in> set c. in_class Digit x"
    and 7: "(c3, rest) \<in> set (rx_matches (seq [LitI ''-'', Group (Plus Digit)]) s7)"
    unfolding sq by (rule seq_group_plus)
  from 7 obtain s8 where 8: "(c3, rest) \<in> set (rx_matches (seq [Group (Plus Digit)]) s8)"
    unfolding sq by (rule seq_skip [OF no_group_sep(2)])
  from 8 obtain d where "c3 = [d]" "d \<noteq> []" "\<forall>x \<in> set d. in_class Digit x"
    unfolding sq by (rule group_plus_last)
  with a b c show ?thesis by (simp add: digitsI)
qed

section \<open>Properties of the validator\<close>

lemma validateScore_valid_iff:
  "valid (validateScore p n) \<longleftrightarrow>
     (\<exists>a b. player1Score p = Some a \<and> player2Score p = Some b \<and> 0 \<le> a \<and> 0 \<le> b \<and>
            ((a = n \<and> b < n) \<or> (b = n \<and> a < n)))"
  by (cases "player1Score p"; cases "player2Score p") (auto simp: validateScore_def)

text \<open>
  C7.  \<open>validateScore\<close> accepts exactly when both scores are present, both are
  non-negative, exactly one of them equals the match length and the other one is strictly
  below it.  Each of the four failure conditions can be triggered on its own (a report that
  breaks only that condition), and the reasons reported are pairwise different: a missing
  score, a negative score, no score equal to the match length or a tie, and a losing score
  that is not below the match length.
\<close>

theorem validateScore_spec:
  "(valid (validateScore p n) \<longleftrightarrow>
     (\<exists>a b. player1Score p = Some a \<and> player2Score p = Some b \<and> 0 \<le> a \<and> 0 \<le> b \<and>
            ((a = n \<and> b \<noteq> n \<and> b < n) \<or> (b = n \<and> a \<noteq> n \<and> a < n))))
   \<and> validateScore (scores_only None (Some 9)) 9
       = \<lparr>valid = False, reason = Some ''Could not determine both scores''\<rparr>
   \<and> validateScore (scores_only (Some (- 1)) (Some 9)) 9
       = \<lparr>valid = False, reason = Some ''Scores must be positive''\<rparr>
   \<and> validateScore (scores_only (Some 3) (Some 4)) 9
       = \<lparr>valid = False, reason = Some ''One player must reach 9 points''\<rparr>
   \<and> validateScore (scores_only (Some 9) (Some 9)) 9
       = \<lparr>valid = False, reason = Some ''Scores cannot be tied''\<rparr>
   \<and> validateScore (scores_only (Some 9) (Some 10)) 9
       = \<lparr>valid = False, reason = Some ''Losing score must be less than match length''\<rparr>
   \<and> distinct [''Could not determine both scores'', ''Scores must be positive'',
        ''One player must reach 9 points'', ''Scores cannot be tied'',
        ''Losing score must be less than match length'']"
proof -
  have sh: "show_int 9 = ''9''"
    by (simp add: show_int_def show_nat.simps digit_char_def)
  have "valid (validateScore p n) \<longleftrightarrow>
     (\<exists>a b. player1Score p = Some a \<and> player2Score p = Some b \<and> 0 \<le> a \<and> 0 \<le> b \<and>
            ((a = n \<and> b \<noteq> n \<and> b < n) \<or> (b = n \<and> a \<noteq> n \<and> a < n)))"
    unfolding validateScore_valid_iff by auto
  then show ?thesis
    by (simp add: validateScore_def scores_only_def sh)
qed

section \<open>Properties of the parser\<close>

lemma parseScoreText_tier1:
  assumes "rx_exec pattern1 t = Some cs"
  shows "\<exists>a b c d. cs = [a, b, c, d] \<and> digits b \<and> digits d \<and>
           parseScoreText t =
             \<lparr>player1Name = Some a, player2Name = Some c,
              player1Score = Some (parseInt b), player2Score = Some (parseInt d),
              winnerName = Some (if parseInt b > parseInt d then a else c),
              confidence = High, error = None\<rparr>"
proof -
  from pattern1_groups [OF assms] obtain a b c d
    where "cs = [a, b, c, d]" "digits b" "digits d" by blast
  with assms show ?thesis by (simp add: parseScoreText_def)
qed

lemma parseScoreText_tier2:
  assumes "rx_exec pattern1 t = None" "rx_exec pattern2 t = Some cs"
  shows "\<exists>a b c d. cs = [a, b, c, d] \<and> digits c \<and> digits d \<and>
           parseScoreText t =
             \<lparr>player1Name = Some a, player2Name = Some b,
              player1Score = Some (parseInt c), player2Score = Some (parseInt d),
              winnerName = Some a, confidence = High, error = None\<rparr>"
proof -
  from pattern2_groups [OF assms(2)] obtain a b c d
    where "cs = [a, b, c, d]" "digits c" "digits d" by blast
  with assms show ?thesis by (simp add: parseScoreText_def)
qed

lemma parseScoreText_tier3:
  assumes "rx_exec pattern1 t = None" "rx_exec pattern2 t = None" "rx_exec pattern3 t = Some cs"
  shows "\<exists>a b. cs = [a, b] \<and> digits a \<and> digits b \<and>
           parseScoreText t =
             \<lparr>player1Name = None, player2Name = None,
              player1Score = Some (parseInt a), player2Score = Some (parseInt b),
              winnerName = None, confidence = Medium, error = None\<rparr>"
proof -
  from pattern3_groups [OF assms(3)] obtain a b
    where "cs = [a, b]" "digits a" "digits b" by blast
  with assms show ?thesis by (simp add: parseScoreText_def)
qed

lemma parseScoreText_tier4:
  assumes "rx_exec pattern1 t = None" "rx_exec pattern2 t = None" "rx_exec pattern3 t = None"
  shows "parseScoreText t = could_not_parse"
  using assms by (simp add: parseScoreText_def could_not_parse_def)

text \<open>
  Every number \<open>parseInt\<close> is applied to is the text of a \<open>(\d+)\<close> group, and the
  scores of a report are absent only in the last tier.
\<close>

lemma parseScoreText_scores:
  "(player1Score (parseScoreText t) = None \<or> player2Score (parseScoreText t) = None)
     = (parseScoreText t = could_not_parse)"
proof (cases "rx_exec pattern1 t")
  case (Some cs)
  from parseScoreText_tier1 [OF Some] show ?thesis
    by (auto simp: could_not_parse_def)
next
  case p1: None
  show ?thesis
  proof (cases "rx_exec pattern2 t")
    case (Some cs)
    from parseScoreText_tier2 [OF p1 Some] show ?thesis
      by (auto simp: could_not_parse_def)
  next
    case p2: None
    show ?thesis
    proof (cases "rx_exec pattern3 t")
      case (Some cs)
      from parseScoreText_tier3 [OF p1 p2 Some] show ?thesis
        by (auto simp: could_not_parse_def)
    next
      case None
      from parseScoreText_tier4 [OF p1 p2 None] show ?thesis
        by (simp add: could_not_parse_def)
    qed
  qed
qed

lemma parseScoreText_low:
  "(confidence (parseScoreText t) = Low) = (parseScoreText t = could_not_parse)"
proof (cases "rx_exec pattern1 t")
  case (Some cs)
  from parseScoreText_tier1 [OF Some] show ?thesis
    by (auto simp: could_not_parse_def)
next
  case p1: None
  show ?thesis
  proof (cases "rx_exec pattern2 t")
    case (Some cs)
    from parseScoreText_tier2 [OF p1 Some] show ?thesis
      by (auto simp: could_not_parse_def)
  next
    case p2: None
    show ?thesis
    proof (cases "rx_exec pattern3 t")
      case (Some cs)
      from parseScoreText_tier3 [OF p1 p2 Some] show ?thesis
        by (auto simp: could_not_parse_def)
    next
      case None
      from parseScoreText_tier4 [OF p1 p2 None] show ?thesis
        by (simp add: could_not_parse_def)
    qed
  qed
qed

text \<open>
  C9.  \<open>parseScoreText\<close> returns a report for every text: no operation of its body can
  throw (\<open>match\<close> returns \<open>null\<close> or the groups, \<open>parseInt\<close> reads digits), so the
  embedding has no failing branch.  When none of the three patterns matches, the report
  has confidence \<open>low\<close>, the error \<open>Could not parse score from text\<close> and no name and
  no score; in every other case it has both scores, no error and a confidence other than
  \<open>low\<close>.
\<close>

theorem parseScoreText_total:
  "(rx_exec pattern1 t = None \<and> rx_exec pattern2 t = None \<and> rx_exec pattern3 t = None
      \<longrightarrow> parseScoreText t =
            \<lparr>player1Name = None, player2Name = None, player1Score = None,
             player2Score = None, winnerName = None, confidence = Low,
             error = Some ''Could not parse score from text''\<rparr>)
   \<and> (\<not> (rx_exec pattern1 t = None \<and> rx_exec pattern2 t = None \<and> rx_exec pattern3 t = None)
      \<longrightarrow> player1Score (parseScoreText t) \<noteq> None \<and> player2Score (parseScoreText t) \<noteq> None
          \<and> error (parseScoreText t) = None \<and> confidence (parseScoreText t) \<noteq> Low)"
proof (cases "rx_exec pattern1 t")
  case (Some cs)
  from parseScoreText_tier1 [OF Some] Some show ?thesis by auto
next
  case p1: None
  show ?thesis
  proof (cases "rx_exec pattern2 t")
    case (Some cs)
    from parseScoreText_tier2 [OF p1 Some] Some show ?thesis by auto
  next
    case p2: None
    show ?thesis
    proof (cases "rx_exec pattern3 t")
      case (Some cs)
      from parseScoreText_tier3 [OF p1 p2 Some] Some show ?thesis by auto
    next
      case None
      from parseScoreText_tier4 [OF p1 p2 None] p1 p2 None show ?thesis
        by (simp add: could_not_parse_def)
    qed
  qed
qed

theorem parseScoreText_total_witness:
  "rx_exec pattern1 ''all done at table 5'' = None
   \<and> rx_exec pattern2 ''all done at table 5'' = None
   \<and> rx_exec pattern3 ''all done at table 5'' = None
   \<and> parseScoreText ''all done at table 5'' =
        \<lparr>player1Name = None, player2Name = None, player1Score = None,
         player2Score = None, winnerName = None, confidence = Low,
         error = Some ''Could not parse score from text''\<rparr>
   \<and> rx_exec pattern3 ''Won 9-5'' \<noteq> None
   \<and> player1Score (parseScoreText ''Won 9-5'') \<noteq> None
   \<and> player2Score (parseScoreText ''Won 9-5'') \<noteq> None
   \<and> error (parseScoreText ''Won 9-5'') = None
   \<and> confidence (parseScoreText ''Won 9-5'') \<noteq> Low"
proof -
  have none: "rx_exec pattern1 ''all done at table 5'' = None
      \<and> rx_exec pattern2 ''all done at table 5'' = None
      \<and> rx_exec pattern3 ''all done at table 5'' = None"
    by code_simp
  have some: "rx_exec pattern3 ''Won 9-5'' \<noteq> None"
    by code_simp
  from none some parseScoreText_total [of "''all done at table 5''"]
    parseScoreText_total [of "''Won 9-5''"]
  show ?thesis by (simp only: simp_thms)
qed

text \<open>
  C8.  The text \<open>9 4\<close> has the bare shape of two numbers separated by a space and
  matches neither the first nor the second pattern.  The third pattern asks for \<open>-\<close> or
  \<open>:\<close> between the numbers, so it does not match either, and the report is the one of
  the last tier: confidence \<open>low\<close>, an error, no scores.  With \<open>-\<close> between the
  numbers the report has confidence \<open>medium\<close>, both scores and no names.
\<close>

theorem parseScoreText_bare_space:
  "rx_exec pattern1 ''9 4'' = None \<and> rx_exec pattern2 ''9 4'' = None
   \<and> parseScoreText ''9 4'' =
        \<lparr>player1Name = None, player2Name = None, player1Score = None,
         player2Score = None, winnerName = None, confidence = Low,
         error = Some ''Could not parse score from text''\<rparr>
   \<and> parseScoreText ''9-5'' =
        \<lparr>player1Name = None, player2Name = None, player1Score = Some 9,
         player2Score = Some 5, winnerName = None, confidence = Medium, error = None\<rparr>"
  by code_simp

section \<open>Properties of the score report intake\<close>

subsection \<open>Trust score\<close>

lemma new_report_trust:
  "(confidence (parseScoreText (sms_body rq)) = High \<longrightarrow>
      confidence_score (new_report e rq player m) =
        (if valid (validateScore (parseScoreText (sms_body rq)) (matchLengthOf m))
         then 90 else 40))
   \<and> (confidence (parseScoreText (sms_body rq)) = Medium \<longrightarrow>
      confidence_score (new_report e rq player m) =
        (if valid (validateScore (parseScoreText (sms_body rq)) (matchLengthOf m))
         then 60 else 40))
   \<and> (confidence (parseScoreText (sms_body rq)) = Low \<longrightarrow>
      confidence_score (new_report e rq player m) = 30)
   \<and> (\<not> valid (validateScore (parseScoreText (sms_body rq)) (matchLengthOf m)) \<longrightarrow>
      confidence_score (new_report e rq player m) \<le> 40)"
proof -
  define parsed where "parsed = parseScoreText (sms_body rq)"
  have score: "confidence_score (new_report e rq player m)
      = confidenceScore parsed (matchLengthOf m)"
    by (simp add: new_report_def parsed_def Let_def)
  show ?thesis
  proof (cases "parsed = could_not_parse")
    case True
    then have "confidence parsed = Low" "player1Score parsed = None"
      by (simp_all add: could_not_parse_def)
    then show ?thesis
      unfolding score parsed_def [symmetric] by (simp add: confidenceScore_def)
  next
    case False
    then have "player1Score parsed \<noteq> None" "player2Score parsed \<noteq> None"
      using parseScoreText_scores [of "sms_body rq"] by (simp_all add: parsed_def)
    moreover have "confidence parsed \<noteq> Low"
      using False parseScoreText_low [of "sms_body rq"] by (simp add: parsed_def)
    ultimately show ?thesis
      unfolding score parsed_def [symmetric]
      by (cases "confidence parsed") (simp_all add: confidenceScore_def)
  qed
qed

lemma new_report_fields:
  "rid (new_report e rq player m) = new_report_id e"
  "match_id (new_report e rq player m) = mid m"
  "raw_text (new_report e rq player m) = sms_body rq"
  "report_status (new_report e rq player m) = Report_pending"
  by (simp_all add: new_report_def Let_def)

lemma POST_trace_cases:
  assumes "signature_ok e" "find_player st (sms_from rq) = Some player"
    "selectTargetMatch (sms_body rq) (activeMatches st player) = Some m"
    "insert_report_ok e"
  shows "\<exists>w s1 s2.
      snd (POST e st rq) = [insert_report st (new_report e rq player m)]
    \<or> snd (POST e st rq) =
        [insert_report st (new_report e rq player m),
         complete_match (insert_report st (new_report e rq player m)) (mid m) w s1 s2
           (completed_time e)]
    \<or> snd (POST e st rq) =
        [insert_report st (new_report e rq player m),
         complete_match (insert_report st (new_report e rq player m)) (mid m) w s1 s2
           (completed_time e),
         approve_report
           (complete_match (insert_report st (new_report e rq player m)) (mid m) w s1 s2
              (completed_time e))
           (new_report_id e) (approved_time e)]"
  using assms
  by (simp add: POST_def Let_def new_report_fields split: option.split) blast


lemma complete_match_reports:
  "db_score_reports (complete_match s i w a b t) = db_score_reports s"
  by (simp add: complete_match_def)

lemma approve_report_keeps:
  assumes "x \<in> set (db_score_reports s)"
  shows "\<exists>y \<in> set (db_score_reports (approve_report s k t)).
           rid y = rid x \<and> match_id y = match_id x \<and> raw_text y = raw_text x
           \<and> confidence_score y = confidence_score x"
proof -
  let ?f = "\<lambda>x. if rid x = k then x\<lparr>report_status := Approved, approved_at := Some t\<rparr> else x"
  have rows: "db_score_reports (approve_report s k t) = map ?f (db_score_reports s)"
    by (simp add: approve_report_def)
  have inside: "?f x \<in> set (map ?f (db_score_reports s))"
    unfolding set_map using assms by (rule imageI)
  have "rid (?f x) = rid x \<and> match_id (?f x) = match_id x \<and> raw_text (?f x) = raw_text x
      \<and> confidence_score (?f x) = confidence_score x"
    by simp
  then show ?thesis unfolding rows using inside by (rule bexI)
qed

text \<open>
  C6 (amended).  Whenever the handler stores a report (the sender is known, has an active
  match, and the insert succeeds), the row it appends to \<open>score_reports\<close> carries trust
  90 for a parse of confidence \<open>high\<close>, 60 for \<open>medium\<close> and 30 for \<open>low\<close>, with
  40 in place of 90 and 60, hence at most 40, whenever \<open>validateScore\<close> rejects the
  parsed report against the match length the handler validates with: the division's
  \<open>match_length\<close>, or 9 when that column holds 0.  A report without scores comes from
  the last tier of the parser only, whose trust is 30.  The later writes of the handler
  leave the trust of the stored row as it is.
\<close>

theorem POST_stored_trust:
  assumes "signature_ok e" "find_player st (sms_from rq) = Some player"
    "selectTargetMatch (sms_body rq) (activeMatches st player) = Some m"
    "insert_report_ok e"
  shows "\<exists>r rest.
      snd (POST e st rq) = insert_report st r # rest
    \<and> db_score_reports (insert_report st r) = db_score_reports st @ [r]
    \<and> rid r = new_report_id e \<and> match_id r = mid m \<and> raw_text r = sms_body rq
    \<and> (confidence (parseScoreText (sms_body rq)) = High \<longrightarrow>
          confidence_score r =
            (if valid (validateScore (parseScoreText (sms_body rq)) (matchLengthOf m))
             then 90 else 40))
    \<and> (confidence (parseScoreText (sms_body rq)) = Medium \<longrightarrow>
          confidence_score r =
            (if valid (validateScore (parseScoreText (sms_body rq)) (matchLengthOf m))
             then 60 else 40))
    \<and> (confidence (parseScoreText (sms_body rq)) = Low \<longrightarrow> confidence_score r = 30)
    \<and> (\<not> valid (validateScore (parseScoreText (sms_body rq)) (matchLengthOf m)) \<longrightarrow>
          confidence_score r \<le> 40)
    \<and> (match_length m \<noteq> 0 \<longrightarrow> matchLengthOf m = match_length m)
    \<and> (match_length m = 0 \<longrightarrow> matchLengthOf m = 9)
    \<and> (\<forall>s \<in> set (snd (POST e st rq)).
          \<exists>x \<in> set (db_score_reports s).
            rid x = rid r \<and> match_id x = match_id r \<and> raw_text x = raw_text r
            \<and> confidence_score x = confidence_score r)"
proof -
  define r where "r = new_report e rq player m"
  define st1 where "st1 = insert_report st r"
  have in1: "r \<in> set (db_score_reports st1)"
    and rows1: "db_score_reports st1 = db_score_reports st @ [r]"
    by (simp_all add: st1_def insert_report_def)
  have k1: "\<exists>x \<in> set (db_score_reports st1).
            rid x = rid r \<and> match_id x = match_id r \<and> raw_text x = raw_text r
            \<and> confidence_score x = confidence_score r"
    using in1 by blast
  have k2: "\<exists>x \<in> set (db_score_reports (complete_match st1 i w a b t)).
            rid x = rid r \<and> match_id x = match_id r \<and> raw_text x = raw_text r
            \<and> confidence_score x = confidence_score r" for i w a b t
    unfolding complete_match_reports by (rule k1)
  have k3: "\<exists>x \<in> set (db_score_reports (approve_report (complete_match st1 i w a b t) k t')).
            rid x = rid r \<and> match_id x = match_id r \<and> raw_text x = raw_text r
            \<and> confidence_score x = confidence_score r" for i w a b t k t'
  proof -
    have "r \<in> set (db_score_reports (complete_match st1 i w a b t))"
      unfolding complete_match_reports by (rule in1)
    then show ?thesis by (rule approve_report_keeps)
  qed
  from POST_trace_cases [OF assms, folded r_def, folded st1_def]
  obtain w s1 s2 where
    "snd (POST e st rq) = [st1]
     \<or> snd (POST e st rq) = [st1, complete_match st1 (mid m) w s1 s2 (completed_time e)]
     \<or> snd (POST e st rq) =
         [st1, complete_match st1 (mid m) w s1 s2 (completed_time e),
          approve_report (complete_match st1 (mid m) w s1 s2 (completed_time e))
            (new_report_id e) (approved_time e)]"
    by blast
  then have hd: "\<exists>rest. snd (POST e st rq) = st1 # rest"
    and all: "\<forall>s \<in> set (snd (POST e st rq)).
          \<exists>x \<in> set (db_score_reports s).
            rid x = rid r \<and> match_id x = match_id r \<and> raw_text x = raw_text r
            \<and> confidence_score x = confidence_score r"
    using k1 k2 k3 by auto
  have ml: "match_length m \<noteq> 0 \<longrightarrow> matchLengthOf m = match_length m"
    "match_length m = 0 \<longrightarrow> matchLengthOf m = 9"
    by (simp_all add: matchLengthOf_def)
  from hd obtain rest where hd': "snd (POST e st rq) = insert_report st r # rest"
    unfolding st1_def by blast
  show ?thesis
    using hd' rows1 [unfolded st1_def] new_report_fields(1-3) [of e rq player m, folded r_def]
      new_report_trust [of rq e player m, folded r_def] ml all
    by (intro exI [of _ r] exI [of _ rest]) blast
qed

theorem POST_stored_trust_witness:
  "signature_ok example_env
   \<and> find_player example_store (sms_from mike_reports) = Some mike
   \<and> selectTargetMatch (sms_body mike_reports) (activeMatches example_store mike) = Some mike_lisa
   \<and> insert_report_ok example_env
   \<and> confidence (parseScoreText (sms_body mike_reports)) = High
   \<and> \<not> valid (validateScore (parseScoreText (sms_body mike_reports)) (matchLengthOf mike_lisa))
   \<and> match_length mike_lisa \<noteq> 0
   \<and> matchLengthOf mike_lisa = match_length mike_lisa
   \<and> (\<exists>r rest. snd (POST example_env example_store mike_reports)
                   = insert_report example_store r # rest
         \<and> db_score_reports (insert_report example_store r)
             = db_score_reports example_store @ [r]
         \<and> raw_text r = sms_body mike_reports
         \<and> confidence_score r = 40 \<and> confidence_score r \<le> 40)"
proof -
  have h1: "signature_ok example_env" and h4: "insert_report_ok example_env"
    by (simp_all add: example_env_def)
  have h2: "find_player example_store (sms_from mike_reports) = Some mike"
    by code_simp
  have h3: "selectTargetMatch (sms_body mike_reports) (activeMatches example_store mike)
      = Some mike_lisa"
    by code_simp
  have c: "confidence (parseScoreText (sms_body mike_reports)) = High"
    by code_simp
  have v: "\<not> valid (validateScore (parseScoreText (sms_body mike_reports)) (matchLengthOf mike_lisa))"
    by code_simp
  have z: "match_length mike_lisa \<noteq> 0"
    by code_simp
  from POST_stored_trust [OF h1 h2 h3 h4] obtain r rest where
    a: "snd (POST example_env example_store mike_reports) = insert_report example_store r # rest"
    and b: "db_score_reports (insert_report example_store r) = db_score_reports example_store @ [r]"
    and t: "raw_text r = sms_body mike_reports"
    and hi: "confidence (parseScoreText (sms_body mike_reports)) = High \<longrightarrow>
          confidence_score r =
            (if valid (validateScore (parseScoreText (sms_body mike_reports))
                        (matchLengthOf mike_lisa))
             then 90 else 40)"
    and le: "\<not> valid (validateScore (parseScoreText (sms_body mike_reports))
                        (matchLengthOf mike_lisa)) \<longrightarrow> confidence_score r \<le> 40"
    and ml: "match_length mike_lisa \<noteq> 0 \<longrightarrow> matchLengthOf mike_lisa = match_length mike_lisa"
    by (elim exE conjE)
  from hi c v have s40: "confidence_score r = 40" by (simp only: simp_thms if_False)
  from le v have sle: "confidence_score r \<le> 40" by (rule mp)
  from ml z have m: "matchLengthOf mike_lisa = match_length mike_lisa" by (rule mp)
  from a b t s40 sle have "\<exists>r rest. snd (POST example_env example_store mike_reports)
                   = insert_report example_store r # rest
         \<and> db_score_reports (insert_report example_store r)
             = db_score_reports example_store @ [r]
         \<and> raw_text r = sms_body mike_reports
         \<and> confidence_score r = 40 \<and> confidence_score r \<le> 40"
    by (intro exI conjI)
  with h1 h2 h3 h4 c v z m show ?thesis by (intro conjI)
qed

text \<open>
  The claim as stated fails for a division whose \<open>match_length\<close> is 0: \<open>John 9 Sarah
  4\<close> does not validate against 0, but the handler validates against 9, stores trust 90
  and applies the report.
\<close>

theorem POST_trust_zero_length_counterexample:
  "match_length john_sarah_zero = 0
   \<and> find_player zero_length_store (sms_from john_reports) = Some john
   \<and> selectTargetMatch (sms_body john_reports) (activeMatches zero_length_store john)
       = Some john_sarah_zero
   \<and> \<not> valid (validateScore (parseScoreText (sms_body john_reports))
                (match_length john_sarah_zero))
   \<and> map confidence_score
        (db_score_reports (hd (snd (POST example_env zero_length_store john_reports)))) = [90]
   \<and> fst (POST example_env zero_length_store john_reports) = Score_recorded (Some ''John'') 9 4"
  by code_simp

subsection \<open>Selection of the target match\<close>

lemma selectTargetMatch_member:
  "selectTargetMatch body ms = Some m \<Longrightarrow> m \<in> set ms"
  by (cases ms) (auto simp: selectTargetMatch_def find_Some_iff split: option.splits if_splits)

text \<open>
  C5 (amended).  Whenever the sender has an active match, one of the sender's active
  matches is selected.  With several active matches it is the first one, in the order the
  query returned them, one of whose players' names occurs in the text (letter case
  ignored; a missing player counts as occurring); if the text mentions none, and also when
  there is a single active match, it is the first row of the query result.  The query asks
  for no order, so this row need not be the match created first.
\<close>

theorem selectTargetMatch_first_mentioned:
  assumes "ms \<noteq> []"
  shows "\<exists>i < length ms. selectTargetMatch body ms = Some (ms ! i)
           \<and> (\<forall>j < i. \<not> mentions body (ms ! j))
           \<and> (0 < i \<longrightarrow> mentions body (ms ! i))
           \<and> (1 < length ms \<and> \<not> mentions body (ms ! i) \<longrightarrow> i = 0 \<and> (\<forall>m \<in> set ms. \<not> mentions body m))"
proof (cases "1 < length ms \<and> find (mentions body) ms \<noteq> None")
  case True
  then obtain m where f: "find (mentions body) ms = Some m" by blast
  then obtain i where i: "i < length ms" "mentions body (ms ! i)" "m = ms ! i"
    "\<forall>j < i. \<not> mentions body (ms ! j)"
    unfolding find_Some_iff by blast
  have "selectTargetMatch body ms = Some (ms ! i)"
    using True f i(3) assms by (cases ms) (simp_all add: selectTargetMatch_def)
  with i show ?thesis by blast
next
  case False
  have sel: "selectTargetMatch body ms = Some (ms ! 0)"
    using False assms by (cases ms) (auto simp: selectTargetMatch_def)
  have "1 < length ms \<longrightarrow> (\<forall>m \<in> set ms. \<not> mentions body m)"
    using False by (auto simp: find_None_iff)
  with sel assms show ?thesis by (intro exI [of _ 0]) simp
qed

theorem selectTargetMatch_first_mentioned_witness:
  "[john_mike, john_sarah] \<noteq> []
   \<and> (\<exists>i < length [john_mike, john_sarah].
         selectTargetMatch ''John 9 Sarah 4'' [john_mike, john_sarah]
           = Some ([john_mike, john_sarah] ! i)
         \<and> (\<forall>j < i. \<not> mentions ''John 9 Sarah 4'' ([john_mike, john_sarah] ! j))
         \<and> (0 < i \<longrightarrow> mentions ''John 9 Sarah 4'' ([john_mike, john_sarah] ! i))
         \<and> (1 < length [john_mike, john_sarah]
              \<and> \<not> mentions ''John 9 Sarah 4'' ([john_mike, john_sarah] ! i)
            \<longrightarrow> i = 0 \<and> (\<forall>m \<in> set [john_mike, john_sarah]. \<not> mentions ''John 9 Sarah 4'' m)))"
proof -
  have ne: "[john_mike, john_sarah] \<noteq> []" by simp
  from ne selectTargetMatch_first_mentioned [OF ne, of "''John 9 Sarah 4''"]
  show ?thesis by (rule conjI)
qed

text \<open>
  The claim as stated fails: John has two active matches, the text \<open>9-4\<close> names nobody,
  and the handler takes the first row, which was created after the other one.
\<close>

theorem selectTargetMatch_fallback_counterexample:
  "activeMatches two_match_store john = [john_mike, john_sarah]
   \<and> \<not> mentions (sms_body john_reports_bare) john_mike
   \<and> \<not> mentions (sms_body john_reports_bare) john_sarah
   \<and> selectTargetMatch (sms_body john_reports_bare) (activeMatches two_match_store john)
        = Some john_mike
   \<and> created_at john_sarah < created_at john_mike"
  by code_simp

subsection \<open>Winner resolution\<close>

text \<open>
  C4 (amended).  The winner is resolved only for a report that has both scores and passes
  \<open>validateScore\<close>; otherwise it stays unbound, also when the report names a
  participant.  For a valid report the order is: (i) the named winner, when that name is a
  case-insensitive substring of the first participant's name, else of the second
  participant's name; (ii) when no name resolves, the first participant if the first score
  is the higher one and the second participant otherwise.
\<close>

theorem resolveWinner_order:
  "(player1Score parsed = None \<or> player2Score parsed = None
      \<or> \<not> valid (validateScore parsed ml) \<longrightarrow> resolveWinner parsed m ml = None)
   \<and> (\<forall>s1 s2. player1Score parsed = Some s1 \<and> player2Score parsed = Some s2
         \<and> valid (validateScore parsed ml) \<longrightarrow>
         (\<forall>w p. winnerName parsed = Some w \<and> w \<noteq> [] \<and> player1 m = Some p \<and> pid p \<noteq> []
                \<and> str_includes (toLowerCase (name p)) (toLowerCase w)
              \<longrightarrow> resolveWinner parsed m ml = Some (pid p))
       \<and> (\<forall>w q. winnerName parsed = Some w \<and> w \<noteq> []
                \<and> \<not> name_includes (player1 m) (toLowerCase w)
                \<and> player2 m = Some q \<and> pid q \<noteq> []
                \<and> str_includes (toLowerCase (name q)) (toLowerCase w)
              \<longrightarrow> resolveWinner parsed m ml = Some (pid q))
       \<and> (\<not> truthy (winnerName parsed)
             \<or> (\<exists>w. winnerName parsed = Some w
                    \<and> \<not> name_includes (player1 m) (toLowerCase w)
                    \<and> \<not> name_includes (player2 m) (toLowerCase w))
              \<longrightarrow> resolveWinner parsed m ml = (if s1 > s2 then player1_id m else player2_id m)))"
  by (cases "player1Score parsed"; cases "player2Score parsed")
     (auto simp: resolveWinner_def truthy_def name_includes_def Let_def split: option.splits)

theorem resolveWinner_order_witness:
  "player1Score (parseScoreText (sms_body mike_reports_nine)) = Some 9
   \<and> player2Score (parseScoreText (sms_body mike_reports_nine)) = Some 2
   \<and> valid (validateScore (parseScoreText (sms_body mike_reports_nine)) 9)
   \<and> winnerName (parseScoreText (sms_body mike_reports_nine)) = Some ''Mike''
   \<and> player1 mike_lisa = Some mike \<and> pid mike \<noteq> []
   \<and> str_includes (toLowerCase (name mike)) (toLowerCase ''Mike'')
   \<and> resolveWinner (parseScoreText (sms_body mike_reports_nine)) mike_lisa 9 = Some (pid mike)
   \<and> \<not> valid (validateScore (parseScoreText (sms_body mike_reports)) 9)
   \<and> resolveWinner (parseScoreText (sms_body mike_reports)) mike_lisa 9 = None"
proof -
  have a: "player1Score (parseScoreText (sms_body mike_reports_nine)) = Some 9"
    and b: "player2Score (parseScoreText (sms_body mike_reports_nine)) = Some 2"
    and c: "valid (validateScore (parseScoreText (sms_body mike_reports_nine)) 9)"
    and d: "winnerName (parseScoreText (sms_body mike_reports_nine)) = Some ''Mike''"
    and f: "player1 mike_lisa = Some mike" and g: "pid mike \<noteq> []"
    and h: "str_includes (toLowerCase (name mike)) (toLowerCase ''Mike'')"
    and i: "\<not> valid (validateScore (parseScoreText (sms_body mike_reports)) 9)"
    by code_simp+
  have ne: "''Mike'' \<noteq> []" by simp
  from resolveWinner_order [of "parseScoreText (sms_body mike_reports_nine)" 9 mike_lisa]
    a b c d f g h ne
  have j: "resolveWinner (parseScoreText (sms_body mike_reports_nine)) mike_lisa 9 = Some (pid mike)"
    by metis
  from resolveWinner_order [of "parseScoreText (sms_body mike_reports)" 9 mike_lisa] i
  have k: "resolveWinner (parseScoreText (sms_body mike_reports)) mike_lisa 9 = None"
    by metis
  from a b c d f g h i j k show ?thesis by (simp only: simp_thms)
qed

text \<open>
  The claim as stated fails: \<open>Mike beat Lisa 7-2\<close> names Mike, who plays the match, but
  neither score is the match length 9, and the winner stays unbound.
\<close>

theorem resolveWinner_named_counterexample:
  "winnerName (parseScoreText (sms_body mike_reports)) = Some ''Mike''
   \<and> name_includes (player1 mike_lisa) (toLowerCase ''Mike'')
   \<and> resolveWinner (parseScoreText (sms_body mike_reports)) mike_lisa (matchLengthOf mike_lisa)
        = None"
  by code_simp

subsection \<open>Applying a report\<close>

lemma activeMatches_subset: "set (activeMatches st player) \<subseteq> set (db_matches st)"
  by (auto simp: activeMatches_def)

lemma complete_match_target:
  assumes "m \<in> set (db_matches st)"
  shows "\<exists>x \<in> set (db_matches (complete_match st (mid m) w s1 s2 t)).
           mid x = mid m \<and> status x = Completed"
proof -
  let ?f = "\<lambda>x. if mid x = mid m
                 then x\<lparr>winner_id := w, player1_score := s1, player2_score := s2,
                        status := Completed, completed_at := Some t\<rparr>
                 else x"
  have rows: "db_matches (complete_match st (mid m) w s1 s2 t) = map ?f (db_matches st)"
    by (simp add: complete_match_def)
  have inside: "?f m \<in> set (map ?f (db_matches st))"
    unfolding set_map using assms by (rule imageI)
  have "mid (?f m) = mid m \<and> status (?f m) = Completed" by simp
  then show ?thesis unfolding rows using inside by (rule bexI)
qed

lemma approve_report_target:
  assumes "r \<in> set (db_score_reports st)"
  shows "\<exists>x \<in> set (db_score_reports (approve_report st (rid r) t)).
           rid x = rid r \<and> match_id x = match_id r"
proof -
  let ?f = "\<lambda>x. if rid x = rid r then x\<lparr>report_status := Approved, approved_at := Some t\<rparr>
                 else x"
  have rows: "db_score_reports (approve_report st (rid r) t) = map ?f (db_score_reports st)"
    by (simp add: approve_report_def)
  have inside: "?f r \<in> set (map ?f (db_score_reports st))"
    unfolding set_map using assms by (rule imageI)
  have "rid (?f r) = rid r \<and> match_id (?f r) = match_id r" by simp
  then show ?thesis unfolding rows using inside by (rule bexI)
qed

text \<open>
  C2 (amended).  When the auto-apply rule fires and every write succeeds, the handler
  performs three separate writes in this order: it inserts the report with status
  \<open>pending\<close>, it sets scores, winner, status \<open>completed\<close> and the completion time
  of the target match, and it marks the report approved.  After the last write the match
  is completed and the report is approved; between the second and the third write the
  match is completed while its report is still pending.
\<close>

theorem POST_auto_apply_writes:
  assumes "signature_ok e" "find_player st (sms_from rq) = Some player"
    "selectTargetMatch (sms_body rq) (activeMatches st player) = Some m"
    "auto_apply (new_report e rq player m)"
    "insert_report_ok e" "update_match_ok e" "update_report_ok e"
  shows "\<exists>st1 st2 st3 s1 s2 w.
      parsed_player1_score (new_report e rq player m) = Some s1
    \<and> parsed_player2_score (new_report e rq player m) = Some s2
    \<and> POST e st rq = (Score_recorded w s1 s2, [st1, st2, st3])
    \<and> st1 = insert_report st (new_report e rq player m)
    \<and> st2 = complete_match st1 (mid m) (parsed_winner_id (new_report e rq player m)) s1 s2
              (completed_time e)
    \<and> st3 = approve_report st2 (new_report_id e) (approved_time e)
    \<and> db_matches st1 = db_matches st
    \<and> new_report e rq player m \<in> set (db_score_reports st1)
    \<and> report_status (new_report e rq player m) = Report_pending
    \<and> new_report e rq player m \<in> set (db_score_reports st2)
    \<and> applied_unapproved st2 (mid m)
    \<and> (\<forall>x \<in> set (db_matches st3). mid x = mid m \<longrightarrow>
          status x = Completed \<and> winner_id x = parsed_winner_id (new_report e rq player m)
          \<and> player1_score x = s1 \<and> player2_score x = s2
          \<and> completed_at x = Some (completed_time e))
    \<and> (\<exists>x \<in> set (db_matches st3). mid x = mid m)
    \<and> (\<forall>x \<in> set (db_score_reports st3). rid x = new_report_id e \<longrightarrow>
          report_status x = Approved \<and> approved_at x = Some (approved_time e))
    \<and> (\<exists>x \<in> set (db_score_reports st3). rid x = new_report_id e \<and> match_id x = mid m)"
proof -
  define r where "r = new_report e rq player m"
  from assms(4) obtain s1 s2 where sc: "parsed_player1_score r = Some s1"
    "parsed_player2_score r = Some s2"
    and hi: "confidence_score r \<ge> 90" "truthy (parsed_winner_id r)"
    unfolding r_def [symmetric] auto_apply_def by auto
  have rid: "rid r = new_report_id e" and mid: "match_id r = mid m"
    and pend: "report_status r = Report_pending"
    by (simp_all add: r_def new_report_def Let_def)
  have mem: "m \<in> set (db_matches st)"
    using selectTargetMatch_member [OF assms(3)] activeMatches_subset by blast
  define st1 where "st1 = insert_report st r"
  define st2 where "st2 = complete_match st1 (mid m) (parsed_winner_id r) s1 s2 (completed_time e)"
  define st3 where "st3 = approve_report st2 (new_report_id e) (approved_time e)"
  define w where "w = (if parsed_winner_id r = player1_id m
                        then map_option name (player1 m) else map_option name (player2 m))"
  have post: "POST e st rq = (Score_recorded w s1 s2, [st1, st2, st3])"
    using assms(1,2,3,5,6,7) sc hi
    by (simp add: POST_def Let_def r_def [symmetric] st1_def st2_def st3_def w_def rid)
  have m1: "db_matches st1 = db_matches st" and r1: "r \<in> set (db_score_reports st1)"
    by (simp_all add: st1_def insert_report_def)
  have r2: "r \<in> set (db_score_reports st2)"
    using r1 by (simp add: st2_def complete_match_def)
  have au: "applied_unapproved st2 (mid m)"
    unfolding applied_unapproved_def list_ex_iff
  proof
    show "\<exists>x \<in> set (db_matches st2). mid x = mid m \<and> status x = Completed"
      using complete_match_target [of m st1] mem by (simp add: st2_def m1)
    show "\<exists>x \<in> set (db_score_reports st2). match_id x = mid m \<and> report_status x \<noteq> Approved"
      using r2 mid pend by force
  qed
  have m3: "\<forall>x \<in> set (db_matches st3). mid x = mid m \<longrightarrow>
          status x = Completed \<and> winner_id x = parsed_winner_id r
          \<and> player1_score x = s1 \<and> player2_score x = s2
          \<and> completed_at x = Some (completed_time e)"
    by (auto simp: st3_def approve_report_def st2_def complete_match_def)
  have m3': "\<exists>x \<in> set (db_matches st3). mid x = mid m"
    using complete_match_target [of m st1 "parsed_winner_id r" s1 s2 "completed_time e"] mem
    by (auto simp: st3_def approve_report_def st2_def m1)
  have r3: "\<forall>x \<in> set (db_score_reports st3). rid x = new_report_id e \<longrightarrow>
          report_status x = Approved \<and> approved_at x = Some (approved_time e)"
    by (auto simp: st3_def approve_report_def)
  have r3': "\<exists>x \<in> set (db_score_reports st3). rid x = new_report_id e \<and> match_id x = mid m"
    using approve_report_target [OF r2, of "approved_time e"] rid mid
    by (simp add: st3_def)
  from sc post m1 r1 pend r2 au m3 m3' r3 r3' show ?thesis
    unfolding r_def st1_def st2_def st3_def by blast
qed

theorem POST_auto_apply_writes_witness:
  "signature_ok example_env
   \<and> find_player example_store (sms_from john_reports) = Some john
   \<and> selectTargetMatch (sms_body john_reports) (activeMatches example_store john)
        = Some john_sarah
   \<and> auto_apply (new_report example_env john_reports john john_sarah)
   \<and> insert_report_ok example_env \<and> update_match_ok example_env
   \<and> update_report_ok example_env
   \<and> (\<exists>st1 st2 st3.
         snd (POST example_env example_store john_reports) = [st1, st2, st3]
         \<and> applied_unapproved st2 (mid john_sarah))"
proof -
  have h1: "signature_ok example_env"
    and h5: "insert_report_ok example_env" and h6: "update_match_ok example_env"
    and h7: "update_report_ok example_env"
    by (simp_all add: example_env_def)
  have h2: "find_player example_store (sms_from john_reports) = Some john"
    by code_simp
  have h3: "selectTargetMatch (sms_body john_reports) (activeMatches example_store john)
        = Some john_sarah"
    by code_simp
  have h4: "auto_apply (new_report example_env john_reports john john_sarah)"
    by code_simp
  from POST_auto_apply_writes [OF h1 h2 h3 h4 h5 h6 h7]
  have "\<exists>st1 st2 st3.
         snd (POST example_env example_store john_reports) = [st1, st2, st3]
         \<and> applied_unapproved st2 (mid john_sarah)"
    by (elim exE conjE) (simp only: snd_conv, blast)
  with h1 h2 h3 h4 h5 h6 h7 show ?thesis by (simp only: simp_thms)
qed

text \<open>
  The claim as stated fails: for John's report \<open>John 9 Sarah 4\<close> the second of the three
  states the handler produces has the match completed and the report not approved.
\<close>

theorem POST_atomic_counterexample:
  "auto_apply (new_report example_env john_reports john john_sarah)
   \<and> length (snd (POST example_env example_store john_reports)) = 3
   \<and> applied_unapproved (snd (POST example_env example_store john_reports) ! 1) (mid john_sarah)"
  by code_simp

section \<open>Properties of the bracket generator\<close>

lemma nextPowerOf2_ge: "n \<le> nextPowerOf2 n"
  by (simp add: nextPowerOf2_def le_two_power_ceillog2)

lemma nextPowerOf2_less: "0 < n \<Longrightarrow> nextPowerOf2 n < 2 * n"
  by (simp add: nextPowerOf2_def two_power_ceillog2_gt)

lemma nextPowerOf2_even:
  assumes "2 \<le> n"
  shows "even (nextPowerOf2 n)"
proof -
  have "0 < n" using assms by simp
  then have "1 \<le> ceillog2 n \<longleftrightarrow> 2 ^ 1 < 2 * n"
    by (rule ceillog2_ge_iff)
  then have "1 \<le> ceillog2 n" using assms by simp
  then show ?thesis using assms by (simp add: nextPowerOf2_def)
qed

lemma length_shuffle_loop: "length (shuffle_loop r k xs) = length xs"
  by (induction k arbitrary: xs) (simp_all add: Let_def)

lemma mset_shuffle_loop: "k < length xs \<Longrightarrow> mset (shuffle_loop r k xs) = mset xs"
proof (induction k arbitrary: xs)
  case 0
  then show ?case by simp
next
  case (Suc k)
  let ?j = "r (Suc k) mod (Suc k + 1)"
  have j: "?j < length xs"
  proof -
    have "?j < Suc k + 1" by (rule mod_less_divisor) simp
    with Suc.prems show ?thesis by linarith
  qed
  have "mset (xs[Suc k := xs ! ?j, ?j := xs ! Suc k]) = mset xs"
    using mset_swap [OF j Suc.prems] by simp
  moreover have "k < length (xs[Suc k := xs ! ?j, ?j := xs ! Suc k])"
    using Suc.prems by simp
  ultimately show ?case using Suc.IH by (simp add: Let_def)
qed

lemma mset_shuffle: "mset (shuffle r xs) = mset xs"
  by (cases xs) (simp_all add: shuffle_def mset_shuffle_loop)

lemma length_shuffle: "length (shuffle r xs) = length xs"
  by (simp add: shuffle_def length_shuffle_loop)

lemma bye_matches_props:
  "byes (bye_matches n ps) = bye_matches n ps"
  "length (bye_matches n ps) = length ps"
  "participants (bye_matches n ps) = map pid ps"
  "map match_number (bye_matches n ps) = [n ..< n + length ps]"
  by (induction ps arbitrary: n) (simp_all add: byes_def participants_def upt_conv_Cons del: upt_Suc)

lemma regular_matches_byes:
  "length (byes (regular_matches n ps)) = length ps mod 2"
  by (induction n ps rule: regular_matches.induct) (simp_all add: byes_def)

lemma regular_matches_participants:
  "\<forall>p \<in> set ps. pid p \<noteq> [] \<Longrightarrow> participants (regular_matches n ps) = map pid ps"
  by (induction n ps rule: regular_matches.induct) (simp_all add: participants_def)

lemma regular_matches_numbers:
  "map match_number (regular_matches n ps) = [n ..< n + length (regular_matches n ps)]"
  by (induction n ps rule: regular_matches.induct) (simp_all add: upt_conv_Cons del: upt_Suc)


lemma participants_append: "participants (a @ b) = participants a @ participants b"
  by (simp add: participants_def)

lemma byes_append: "byes (a @ b) = byes a @ byes b"
  by (simp add: byes_def)

lemma bye_count_le: "nextPowerOf2 n - n \<le> n"
proof (cases "n = 0")
  case True
  then show ?thesis by (simp add: nextPowerOf2_def)
next
  case False
  then show ?thesis using nextPowerOf2_less [of n] by simp
qed

lemma regular_count_even:
  assumes "2 \<le> n"
  shows "even (n - (nextPowerOf2 n - n))"
proof -
  have "n \<le> nextPowerOf2 n" by (rule nextPowerOf2_ge)
  moreover have "nextPowerOf2 n < 2 * n" using assms by (intro nextPowerOf2_less) simp
  moreover have "even (nextPowerOf2 n)" using assms by (rule nextPowerOf2_even)
  ultimately show ?thesis by presburger
qed

lemma generateRound1Matches_split:
  "generateRound1Matches r players t =
     bye_matches 1 (take (nextPowerOf2 (length players) - length players) (shuffle r players))
     @ regular_matches (1 + (nextPowerOf2 (length players) - length players))
         (drop (nextPowerOf2 (length players) - length players) (shuffle r players))"
  using bye_count_le [of "length players"]
  by (simp add: generateRound1Matches_def Let_def length_shuffle min_def)

text \<open>
  C1 (amended).  For every player list of size \<open>N\<close> other than 1 and every outcome of
  the shuffle, \<open>generateRound1Matches\<close> produces exactly \<open>nextPowerOf2 N - N\<close> bye
  matches.  For every \<open>N\<close> the match numbers of the round are \<open>1, 2, ...\<close> without gap
  or repetition, and the players of the round's matches (a bye giving its one player) are
  the \<open>N\<close> players of the list, each once, identifiers being non-empty strings.  For
  \<open>N = 0\<close> there is no match; for \<open>N = 1\<close> there is one match, numbered 1: a bye that
  the single player wins.
\<close>

theorem generateRound1Matches_round:
  "(length players \<noteq> 1 \<longrightarrow>
      length (byes (generateRound1Matches r players t))
        = nextPowerOf2 (length players) - length players)
   \<and> (\<forall>p. players = [p] \<longrightarrow>
        generateRound1Matches r players t =
          [\<lparr>round_number = 1, match_number = 1, player1_id = Some (pid p),
            player2_id = None, status = Bye, winner_id = Some (pid p)\<rparr>])
   \<and> ((\<forall>p \<in> set players. pid p \<noteq> []) \<longrightarrow>
        mset (participants (generateRound1Matches r players t)) = mset (map pid players))
   \<and> map match_number (generateRound1Matches r players t)
        = [1 ..< Suc (length (generateRound1Matches r players t))]
   \<and> (players = [] \<longrightarrow> generateRound1Matches r players t = [])"
proof -
  define s where "s = shuffle r players"
  define n where "n = length players"
  define k where "k = nextPowerOf2 n - n"
  define bs where "bs = bye_matches 1 (take k s)"
  define rs where "rs = regular_matches (1 + k) (drop k s)"
  have ms: "generateRound1Matches r players t = bs @ rs"
    unfolding bs_def rs_def k_def n_def s_def by (rule generateRound1Matches_split)
  have len: "length s = n" by (simp add: s_def n_def length_shuffle)
  have kn: "k \<le> n" unfolding k_def by (rule bye_count_le)
  have lbs: "length bs = k" using kn by (simp add: bs_def bye_matches_props len)
  have byes: "length (byes (bs @ rs)) = k + (n - k) mod 2"
    using kn by (simp add: byes_append bs_def rs_def bye_matches_props regular_matches_byes len)
  have 1: "n \<noteq> 1 \<longrightarrow> length (byes (bs @ rs)) = nextPowerOf2 n - n"
  proof
    assume "n \<noteq> 1"
    then consider "n = 0" | "2 \<le> n" by linarith
    then have "(n - k) mod 2 = 0"
    proof cases
      case 1
      then show ?thesis by simp
    next
      case 2
      then show ?thesis using regular_count_even [of n] by (simp add: k_def)
    qed
    with byes show "length (byes (bs @ rs)) = nextPowerOf2 n - n" by (simp add: k_def)
  qed
  have 2: "\<forall>p. players = [p] \<longrightarrow> bs @ rs =
          [\<lparr>round_number = 1, match_number = 1, player1_id = Some (pid p),
            player2_id = None, status = Bye, winner_id = Some (pid p)\<rparr>]"
    by (simp add: bs_def rs_def k_def n_def s_def shuffle_def nextPowerOf2_def)
  have 3: "(\<forall>p \<in> set players. pid p \<noteq> []) \<longrightarrow>
        mset (participants (bs @ rs)) = mset (map pid players)"
  proof
    assume ids: "\<forall>p \<in> set players. pid p \<noteq> []"
    have "set s = set players"
      using mset_shuffle [of r players] unfolding s_def by (rule mset_eq_setD)
    with ids have "\<forall>p \<in> set (drop k s). pid p \<noteq> []"
      using set_drop_subset [of k s] by blast
    then have "participants (bs @ rs) = map pid (take k s) @ map pid (drop k s)"
      by (simp add: participants_append bs_def rs_def bye_matches_props
          regular_matches_participants)
    also have "\<dots> = map pid s"
      by (simp flip: map_append)
    finally have "mset (participants (bs @ rs)) = image_mset pid (mset s)"
      by simp
    then show "mset (participants (bs @ rs)) = mset (map pid players)"
      by (simp add: s_def mset_shuffle)
  qed
  have 4: "map match_number (bs @ rs) = [1 ..< Suc (length (bs @ rs))]"
  proof -
    have "map match_number bs = [1 ..< 1 + k]"
      using lbs by (simp add: bs_def bye_matches_props)
    moreover have "map match_number rs = [1 + k ..< 1 + k + length rs]"
      unfolding rs_def by (rule regular_matches_numbers)
    moreover have "[1 ..< 1 + k + length rs] = [1 ..< 1 + k] @ [1 + k ..< 1 + k + length rs]"
      by (rule upt_add_eq_append) simp
    ultimately show ?thesis using lbs by simp
  qed
  have 5: "players = [] \<longrightarrow> bs @ rs = []"
    by (simp add: bs_def rs_def k_def n_def s_def shuffle_def nextPowerOf2_def)
  from 1 2 3 4 5 show ?thesis
    unfolding ms n_def by blast
qed

theorem generateRound1Matches_round_witness:
  "length [john, sarah, mike] \<noteq> 1
   \<and> length (byes (generateRound1Matches (\<lambda>i. 0) [john, sarah, mike] 1))
       = nextPowerOf2 (length [john, sarah, mike]) - length [john, sarah, mike]
   \<and> generateRound1Matches (\<lambda>i. 0) [lisa] 1 =
          [\<lparr>round_number = 1, match_number = 1, player1_id = Some (pid lisa),
            player2_id = None, status = Bye, winner_id = Some (pid lisa)\<rparr>]
   \<and> list_all (\<lambda>p. pid p \<noteq> []) [john, sarah, mike]
   \<and> mset (participants (generateRound1Matches (\<lambda>i. 0) [john, sarah, mike] 1))
        = mset (map pid [john, sarah, mike])
   \<and> generateRound1Matches (\<lambda>i. 0) [] 1 = []"
proof -
  have a: "length [john, sarah, mike] \<noteq> 1" by simp
  have b: "\<forall>p \<in> set [john, sarah, mike]. pid p \<noteq> []"
    by (simp add: john_def sarah_def mike_def)
  then have c: "list_all (\<lambda>p. pid p \<noteq> []) [john, sarah, mike]"
    by (simp add: list_all_iff)
  from generateRound1Matches_round [of "[john, sarah, mike]" "\<lambda>i. 0" 1]
    generateRound1Matches_round [of "[lisa]" "\<lambda>i. 0" 1]
    generateRound1Matches_round [of "[]" "\<lambda>i. 0" 1] a b c
  show ?thesis by (intro conjI) (blast | simp)+
qed

text \<open>
  The claim as stated fails for a single player: the round has one match, a bye, while
  \<open>nextPowerOf2 1 - 1\<close> is 0.
\<close>

theorem generateRound1Matches_single_counterexample:
  "length [lisa] = 1
   \<and> generateRound1Matches (\<lambda>i. 0) [lisa] 1 \<noteq> []
   \<and> length (byes (generateRound1Matches (\<lambda>i. 0) [lisa] 1)) = 1
   \<and> nextPowerOf2 (length [lisa]) - length [lisa] = 0"
  by code_simp

section \<open>Properties of round advancement\<close>

lemma load_bracket_fields:
  "bid (load_bracket db b) = bid b" "current_round (load_bracket db b) = current_round b"
  by (cases b; simp add: load_bracket_def Bracket.defs BracketWithMatches.defs)+

lemma loadData_fold_main:
  "mainBracket (foldl (\<lambda>divisionData bracket.
              if bracket_type bracket = Main_bracket
              then divisionData\<lparr>mainBracket := Some (load_bracket db bracket)\<rparr>
              else if bracket_type bracket = Consolation
              then divisionData\<lparr>consolationBracket := Some (load_bracket db bracket)\<rparr>
              else divisionData) acc bs) = Some x
   \<Longrightarrow> mainBracket acc = Some x \<or> (\<exists>b \<in> set bs. x = load_bracket db b)"
proof (induction bs arbitrary: acc)
  case Nil
  then show ?case by simp
next
  case (Cons b bs)
  from Cons.IH [OF Cons.prems [simplified foldl_Cons]] show ?case
    by (auto split: if_splits)
qed

lemma loadData_main:
  assumes "mainBracket (loadData db) = Some x"
  shows "\<exists>b \<in> set (bracket_rows db). x = load_bracket db b"
  using loadData_fold_main [OF assms [unfolded loadData_def]] by simp

lemma match_rows_set_round: "match_rows (set_round db b r s) = match_rows db"
  by (simp add: set_round_def)

lemma set_round_current:
  assumes "x \<in> set (bracket_rows (set_round db b r False))" "bid x = b"
  shows "current_round x = r"
proof -
  from assms(1) obtain y where y: "y \<in> set (bracket_rows db)"
    and x: "x = (if bid y = b then y\<lparr>current_round := r\<rparr> else y)"
    unfolding set_round_def by auto
  show ?thesis
  proof (cases "bid y = b")
    case True
    with x show ?thesis by simp
  next
    case False
    with x assms(2) show ?thesis by simp
  qed
qed


lemma length_pair_players: "length (pair_players b r t n ws) = (length ws + 1) div 2"
  by (induction b r t n ws rule: pair_players.induct) simp_all

lemma pair_players_bracket:
  "m \<in> set (pair_players b r t n ws) \<Longrightarrow> bracket_id m = b \<and> round_number m = r"
  by (induction b r t n ws rule: pair_players.induct) (auto split: if_splits)

text \<open>
  One invocation on a given copy of the division, whatever the database holds: the toast,
  the rows appended and the round written depend on the copy only.
\<close>

lemma handleAdvanceRound_once:
  assumes "mainBracket d = Some mb"
    and "insert_main_ok e" "insert_consolation_ok e" "update_main_ok e"
  shows "fst (handleAdvanceRound e (Some d) db) = Some (Advanced_to_round (current_round mb + 1))
    \<and> (\<exists>newCons.
          match_rows (snd (handleAdvanceRound e (Some d) db))
            = match_rows db
              @ next_main_matches mb @ newCons
          \<and> (\<forall>m \<in> set newCons. \<exists>cb. consolationBracket d = Some cb \<and> bracket_id m = bid cb))
    \<and> length (next_main_matches mb) = (length (current_winners mb) + 1) div 2
    \<and> (\<forall>m \<in> set (next_main_matches mb).
          bracket_id m = bid mb \<and> round_number m = current_round mb + 1)
    \<and> (\<forall>b \<in> set (bracket_rows (snd (handleAdvanceRound e (Some d) db))).
          bid b = bid mb \<longrightarrow> current_round b = current_round mb + 1)"
proof -
  define mm where "mm = filter (\<lambda>m. round_number m = current_round mb) (matches mb)"
  define nr where "nr = current_round mb + 1"
  define newMain where "newMain = pair_players (bid mb) nr True 1 (winners_of mm)"
  define newCons where "newCons =
     (case consolationBracket d of
        None \<Rightarrow> []
      | Some cb \<Rightarrow> pair_players (bid cb) nr False 1 (losers_of mm))"
  define db2 where "db2 =
     (case consolationBracket d of
        None \<Rightarrow> insert_matches db newMain
      | Some cb \<Rightarrow>
          if losers_of mm = [] then insert_matches db newMain
          else if update_consolation_ok e
          then set_round (insert_matches (insert_matches db newMain) newCons) (bid cb) nr True
          else insert_matches (insert_matches db newMain) newCons)"
  have res: "handleAdvanceRound e (Some d) db
      = (Some (Advanced_to_round nr), set_round db2 (bid mb) nr False)"
    using assms
    by (cases "consolationBracket d")
       (auto simp: handleAdvanceRound_def Let_def mm_def nr_def newMain_def newCons_def db2_def
          insert_matches_def)
  have rows: "match_rows db2 = match_rows db @ newMain @ newCons"
    by (cases "consolationBracket d")
       (auto simp: db2_def newCons_def insert_matches_def match_rows_set_round)
  have cons: "\<forall>m \<in> set newCons. \<exists>cb. consolationBracket d = Some cb \<and> bracket_id m = bid cb"
    by (cases "consolationBracket d") (auto simp: newCons_def dest: pair_players_bracket)
  have cur: "\<forall>b \<in> set (bracket_rows (set_round db2 (bid mb) nr False)).
          bid b = bid mb \<longrightarrow> current_round b = nr"
    using set_round_current by blast
  have len: "length newMain = (length (winners_of mm) + 1) div 2"
    unfolding newMain_def by (rule length_pair_players)
  from rows cons have ex: "\<exists>newCons. match_rows (set_round db2 (bid mb) nr False)
            = match_rows db @ newMain @ newCons
          \<and> (\<forall>m \<in> set newCons. \<exists>cb. consolationBracket d = Some cb \<and> bracket_id m = bid cb)"
    unfolding match_rows_set_round by blast
  have new: "\<forall>m \<in> set newMain. bracket_id m = bid mb \<and> round_number m = nr"
    unfolding newMain_def using pair_players_bracket by blast
  have nm: "next_main_matches mb = newMain" and cw: "current_winners mb = winners_of mm"
    by (simp_all add: next_main_matches_def current_winners_def newMain_def nr_def mm_def)
  have r1: "fst (handleAdvanceRound e (Some d) db) = Some (Advanced_to_round nr)"
    and r2: "snd (handleAdvanceRound e (Some d) db) = set_round db2 (bid mb) nr False"
    using res by simp_all
  show ?thesis
    unfolding nm cw r1 r2 nr_def [symmetric]
    using ex len cur new by (intro conjI refl)
qed

text \<open>
  C3 (amended).  \<open>handleAdvanceRound\<close> is not idempotent: it has no check that the round
  was advanced before, and what it does depends on the copy of the division the page holds
  only.  Every invocation whose inserts and main-bracket update succeed reports
  \<open>Advanced to Round c + 1\<close>, where \<open>c\<close> is the \<open>current_round\<close> of the main
  bracket in that copy, writes \<open>c + 1\<close> as the main bracket's \<open>current_round\<close>, and
  appends \<open>\<lceil>W/2\<rceil>\<close> main-bracket matches of round \<open>c + 1\<close> for the \<open>W\<close> winners the
  copy records in round \<open>c\<close>, followed by consolation matches only.  A second invocation
  on the same copy (the page not yet reloaded) therefore appends the same matches of round
  \<open>c + 1\<close> once more, a duplicate round, leaves \<open>current_round\<close> at \<open>c + 1\<close> and
  reports \<open>Advanced to Round c + 1\<close> again.  A second invocation on the reloaded
  division, whose main bracket is the same bracket, finds \<open>current_round = c + 1\<close>,
  writes \<open>c + 2\<close>, reports \<open>Advanced to Round c + 2\<close> and appends one main-bracket
  match of round \<open>c + 2\<close> for every two winners already recorded in round \<open>c + 1\<close>
  (none when there is no such winner).  In neither case is a no-op reported.
\<close>

theorem handleAdvanceRound_repeated:
  assumes "mainBracket d = Some mb"
    and "insert_main_ok e" "insert_consolation_ok e" "update_main_ok e"
  shows
   "fst (handleAdvanceRound e (Some d) db) = Some (Advanced_to_round (current_round mb + 1))
    \<and> (\<exists>newCons.
          match_rows (snd (handleAdvanceRound e (Some d) db))
            = match_rows db @ next_main_matches mb @ newCons
          \<and> (\<forall>m \<in> set newCons. \<exists>cb. consolationBracket d = Some cb \<and> bracket_id m = bid cb))
    \<and> length (next_main_matches mb) = (length (current_winners mb) + 1) div 2
    \<and> (\<forall>m \<in> set (next_main_matches mb).
          bracket_id m = bid mb \<and> round_number m = current_round mb + 1)
    \<and> (\<forall>b \<in> set (bracket_rows (snd (handleAdvanceRound e (Some d) db))).
          bid b = bid mb \<longrightarrow> current_round b = current_round mb + 1)
    \<and> fst (handleAdvanceRound e (Some d) (snd (handleAdvanceRound e (Some d) db)))
        = Some (Advanced_to_round (current_round mb + 1))
    \<and> (\<exists>newCons.
          match_rows (snd (handleAdvanceRound e (Some d) (snd (handleAdvanceRound e (Some d) db))))
            = match_rows (snd (handleAdvanceRound e (Some d) db)) @ next_main_matches mb @ newCons
          \<and> (\<forall>m \<in> set newCons. \<exists>cb. consolationBracket d = Some cb \<and> bracket_id m = bid cb))
    \<and> (\<forall>b \<in> set (bracket_rows
                    (snd (handleAdvanceRound e (Some d) (snd (handleAdvanceRound e (Some d) db))))).
          bid b = bid mb \<longrightarrow> current_round b = current_round mb + 1)
    \<and> (\<forall>mb2. mainBracket (loadData (snd (handleAdvanceRound e (Some d) db))) = Some mb2
               \<and> bid mb2 = bid mb \<longrightarrow>
          current_round mb2 = current_round mb + 1
        \<and> fst (advanceRound e (snd (handleAdvanceRound e (Some d) db)))
            = Some (Advanced_to_round (current_round mb + 2))
        \<and> (\<exists>newCons.
              match_rows (snd (advanceRound e (snd (handleAdvanceRound e (Some d) db))))
                = match_rows (snd (handleAdvanceRound e (Some d) db))
                  @ next_main_matches mb2 @ newCons
              \<and> (\<forall>m \<in> set newCons.
                    \<exists>cb. consolationBracket (loadData (snd (handleAdvanceRound e (Some d) db)))
                            = Some cb
                         \<and> bracket_id m = bid cb))
        \<and> length (next_main_matches mb2) = (length (current_winners mb2) + 1) div 2
        \<and> (\<forall>m \<in> set (next_main_matches mb2).
              bracket_id m = bid mb \<and> round_number m = current_round mb + 2)
        \<and> (\<forall>b \<in> set (bracket_rows (snd (advanceRound e (snd (handleAdvanceRound e (Some d) db))))).
              bid b = bid mb \<longrightarrow> current_round b = current_round mb + 2))"
proof -
  define db1 where "db1 = snd (handleAdvanceRound e (Some d) db)"
  note first = handleAdvanceRound_once [OF assms, of db, folded db1_def]
  note stale = handleAdvanceRound_once [OF assms, of db1]
  note s1 = stale [THEN conjunct1]
  note s2 = stale [THEN conjunct2, THEN conjunct1]
  note s5 = stale [THEN conjunct2, THEN conjunct2, THEN conjunct2, THEN conjunct2]
  have fresh: "\<forall>mb2. mainBracket (loadData db1) = Some mb2 \<and> bid mb2 = bid mb \<longrightarrow>
          current_round mb2 = current_round mb + 1
        \<and> fst (advanceRound e db1) = Some (Advanced_to_round (current_round mb + 2))
        \<and> (\<exists>newCons.
              match_rows (snd (advanceRound e db1))
                = match_rows db1 @ next_main_matches mb2 @ newCons
              \<and> (\<forall>m \<in> set newCons.
                    \<exists>cb. consolationBracket (loadData db1) = Some cb \<and> bracket_id m = bid cb))
        \<and> length (next_main_matches mb2) = (length (current_winners mb2) + 1) div 2
        \<and> (\<forall>m \<in> set (next_main_matches mb2).
              bracket_id m = bid mb \<and> round_number m = current_round mb + 2)
        \<and> (\<forall>b \<in> set (bracket_rows (snd (advanceRound e db1))).
              bid b = bid mb \<longrightarrow> current_round b = current_round mb + 2)"
  proof (intro allI impI, elim conjE)
    fix mb2
    assume load: "mainBracket (loadData db1) = Some mb2" and same: "bid mb2 = bid mb"
    from loadData_main [OF load] obtain b where b: "b \<in> set (bracket_rows db1)"
      and mb2: "mb2 = load_bracket db1 b" by blast
    have "bid b = bid mb" using same mb2 by (simp add: load_bracket_fields)
    with first b have "current_round b = current_round mb + 1" by blast
    then have cur: "current_round mb2 = current_round mb + 1"
      using mb2 by (simp add: load_bracket_fields)
    have c2: "current_round mb2 + 1 = current_round mb + 2"
      using cur by simp
    have adv: "handleAdvanceRound e (Some (loadData db1)) db1 = advanceRound e db1"
      by (simp add: advanceRound_def)
    note second = handleAdvanceRound_once [OF load assms(2-4), of db1, unfolded adv c2 same]
    from cur second show "current_round mb2 = current_round mb + 1
        \<and> fst (advanceRound e db1) = Some (Advanced_to_round (current_round mb + 2))
        \<and> (\<exists>newCons.
              match_rows (snd (advanceRound e db1))
                = match_rows db1 @ next_main_matches mb2 @ newCons
              \<and> (\<forall>m \<in> set newCons.
                    \<exists>cb. consolationBracket (loadData db1) = Some cb \<and> bracket_id m = bid cb))
        \<and> length (next_main_matches mb2) = (length (current_winners mb2) + 1) div 2
        \<and> (\<forall>m \<in> set (next_main_matches mb2).
              bracket_id m = bid mb \<and> round_number m = current_round mb + 2)
        \<and> (\<forall>b \<in> set (bracket_rows (snd (advanceRound e db1))).
              bid b = bid mb \<longrightarrow> current_round b = current_round mb + 2)"
      by (rule conjI)
  qed
  show ?thesis
    unfolding db1_def [symmetric]
    using first [THEN conjunct1] first [THEN conjunct2, THEN conjunct1]
      first [THEN conjunct2, THEN conjunct2, THEN conjunct1]
      first [THEN conjunct2, THEN conjunct2, THEN conjunct2, THEN conjunct1]
      first [THEN conjunct2, THEN conjunct2, THEN conjunct2, THEN conjunct2]
      s1 s2 s5 fresh
    by (intro conjI)
qed

theorem handleAdvanceRound_repeated_witness:
  "mainBracket (loadData final_played) = Some final_main
   \<and> insert_main_ok all_ok \<and> insert_consolation_ok all_ok \<and> update_main_ok all_ok
   \<and> fst (handleAdvanceRound all_ok (Some (loadData final_played)) final_played)
       = Some (Advanced_to_round (current_round final_main + 1))
   \<and> fst (handleAdvanceRound all_ok (Some (loadData final_played))
             (snd (handleAdvanceRound all_ok (Some (loadData final_played)) final_played)))
       = Some (Advanced_to_round (current_round final_main + 1))
   \<and> mainBracket
        (loadData (snd (handleAdvanceRound all_ok (Some (loadData final_played)) final_played)))
       = Some final_main_advanced
   \<and> bid final_main_advanced = bid final_main
   \<and> current_round final_main_advanced = current_round final_main + 1
   \<and> fst (advanceRound all_ok
             (snd (handleAdvanceRound all_ok (Some (loadData final_played)) final_played)))
       = Some (Advanced_to_round (current_round final_main + 2))"
proof -
  have a: "mainBracket (loadData final_played) = Some final_main"
    by code_simp
  have b: "insert_main_ok all_ok" and c: "insert_consolation_ok all_ok"
    and d: "update_main_ok all_ok"
    by (simp_all add: all_ok_def)
  have l: "mainBracket
        (loadData (snd (handleAdvanceRound all_ok (Some (loadData final_played)) final_played)))
       = Some final_main_advanced"
    by code_simp
  have i: "bid final_main_advanced = bid final_main"
    by (simp add: final_main_advanced_def final_main_def)
  note t = handleAdvanceRound_repeated [OF a b c d, of final_played]
  note t1 = t [THEN conjunct1]
  note t6 = t [THEN conjunct2, THEN conjunct2, THEN conjunct2, THEN conjunct2, THEN conjunct2,
      THEN conjunct1]
  note t9 = t [THEN conjunct2, THEN conjunct2, THEN conjunct2, THEN conjunct2, THEN conjunct2,
      THEN conjunct2, THEN conjunct2, THEN conjunct2, rule_format, OF conjI [OF l i]]
  from a b c d t1 t6 l i t9 [THEN conjunct1] t9 [THEN conjunct2, THEN conjunct1]
  show ?thesis by (intro conjI)
qed

text \<open>
  The claim as stated fails.  After a final with one completed match the button is enabled
  (\<open>canAdvanceRound\<close>); the first press creates a bye in round 2 and leaves the button
  enabled.  A second press on the reloaded page creates one more match, raises
  \<open>current_round\<close> from 2 to 3 and reports \<open>Advanced to Round 3\<close>; a second run of
  the handler on the page's earlier copy inserts the match of round 2 a second time and
  reports \<open>Advanced to Round 2\<close> again.
\<close>

theorem advanceRound_twice_counterexample:
  "canAdvanceRound (loadData final_played)
   \<and> fst (advanceRound all_ok final_played) = Some (Advanced_to_round 2)
   \<and> map current_round (bracket_rows (snd (advanceRound all_ok final_played))) = [2]
   \<and> canAdvanceRound (loadData (snd (advanceRound all_ok final_played)))
   \<and> fst (advanceRound all_ok (snd (advanceRound all_ok final_played)))
       = Some (Advanced_to_round 3)
   \<and> length (match_rows (snd (advanceRound all_ok (snd (advanceRound all_ok final_played)))))
       = length (match_rows (snd (advanceRound all_ok final_played))) + 1
   \<and> map current_round
        (bracket_rows (snd (advanceRound all_ok (snd (advanceRound all_ok final_played))))) = [3]
   \<and> fst (handleAdvanceRound all_ok (Some (loadData final_played))
             (snd (advanceRound all_ok final_played)))
       = Some (Advanced_to_round 2)
   \<and> length (filter (\<lambda>m. round_number m = 2)
               (match_rows (snd (advanceRound all_ok final_played)))) = 1
   \<and> length (filter (\<lambda>m. round_number m = 2)
               (match_rows (snd (handleAdvanceRound all_ok (Some (loadData final_played))
                                   (snd (advanceRound all_ok final_played)))))) = 2"
  by code_simp

end
